theory Spec2Isabelle
  imports Complex_Main "HOL-Library.Sublist" "HOL-Library.Log_Nat"
begin

section \<open>Plant monitor: a shallow embedding of \<^verbatim>\<open>main.py\<close>\<close>

text \<open>
  The program is a single MicroPython script. Its module-level variables become the fields
  of one state record that every function takes and returns; the outside world (WiFi
  driver, MQTT client, clock, sensor drivers) is a record of answer tapes, one answer per
  external call, indexed by the number of external calls made so far.
\<close>

subsection \<open>Errors and outcomes of external calls\<close>

text \<open>
  The only exceptions that can escape a function of the script: a dictionary indexed with
  a missing key, and the division in \<^verbatim>\<open>get_soil_moisture_percent\<close> when the two calibration
  bounds coincide.
\<close>

datatype error = KeyError | ZeroDivisionError

text \<open>
  What a call into a driver or into the MQTT client does: it raises (any \<^verbatim>\<open>Exception\<close>; the
  script never looks at which) or it returns a value.
\<close>

datatype 'a outcome = Raises | Returns 'a

subsection \<open>Configuration\<close>

text \<open>
  \<^verbatim>\<open>config.py\<close> is not part of the sources (only \<^verbatim>\<open>config_example.py\<close> is), so the constants
  the script imports from it are parameters.
\<close>

record config =
  PUBLISH_INTERVAL :: int
  SENSOR_READ_INTERVAL :: int
  STATUS_UPDATE_INTERVAL :: int
  SOIL_MOISTURE_DRY :: int
  SOIL_MOISTURE_WET :: int

text \<open>The values of \<^verbatim>\<open>config_example.py\<close>.\<close>

definition config_example :: config where
  "config_example =
     \<lparr>PUBLISH_INTERVAL = 60, SENSOR_READ_INTERVAL = 6, STATUS_UPDATE_INTERVAL = 300,
      SOIL_MOISTURE_DRY = 41000, SOIL_MOISTURE_WET = 18000\<rparr>"

subsection \<open>Soil moisture: raw ADC value to percent\<close>

text \<open>
  Python's \<^verbatim>\<open>int(x)\<close> on a float truncates towards zero. The true division \<^verbatim>\<open>/\<close> is taken
  over the reals: the rounding of the float quotient is not modelled.
\<close>

definition py_int :: "real \<Rightarrow> int" where
  "py_int x = (if 0 \<le> x then \<lfloor>x\<rfloor> else \<lceil>x\<rceil>)"

text \<open>
  \<^verbatim>\<open>
  def get_soil_moisture_percent(raw_value, dry=SOIL_MOISTURE_DRY, wet=SOIL_MOISTURE_WET):
      raw_value = max(min(raw_value, dry), wet)
      percent = int((dry - raw_value) * 100 / (dry - wet))
      return percent
  \<close>
\<close>

definition get_soil_moisture_percent :: "int \<Rightarrow> int \<Rightarrow> int \<Rightarrow> error + int" where
  "get_soil_moisture_percent raw_value dry wet =
     (let raw_value = max (min raw_value dry) wet in
      if dry - wet = 0 then Inl ZeroDivisionError
      else Inr (py_int (real_of_int ((dry - raw_value) * 100) / real_of_int (dry - wet))))"

subsection \<open>Floats\<close>

text \<open>
  A Python float is a binary floating-point number. It is modelled by the real number it
  denotes, and every arithmetic operation on floats rounds its exact result to the nearest
  float, ties to the even significand. The number \<open>p\<close> of significand bits belongs to the
  interpreter and not to the script (24 in the single-precision MicroPython build of the
  Pico W, 53 where floats are doubles), so it is a parameter. The exponent has no bounds here:
  overflow to infinity and subnormal numbers are left out.
\<close>

text \<open>The exponent of the leading bit of \<open>y > 0\<close>: \<open>2 powi ilog2 y \<le> y < 2 powi (ilog2 y + 1)\<close>.\<close>

definition ilog2 :: "real \<Rightarrow> int" where
  "ilog2 y = (if 1 \<le> y then bitlen \<lfloor>y\<rfloor> - 1 else - bitlen (\<lceil>1 / y\<rceil> - 1))"

definition round_half_even :: "real \<Rightarrow> int" where
  "round_half_even r =
     (let f = \<lfloor>r\<rfloor>
      in if r - of_int f < 1 / 2 then f
         else if 1 / 2 < r - of_int f then f + 1
         else if even f then f else f + 1)"

text \<open>
  Rounding to \<open>p\<close> significant bits: \<open>u\<close> is the distance between neighbouring floats around
  \<open>x\<close>, and the result is the multiple of \<open>u\<close> nearest to \<open>x\<close>.
\<close>

definition fl :: "nat \<Rightarrow> real \<Rightarrow> real" where
  "fl p x =
     (if x = 0 then 0
      else let u = 2 powi (ilog2 \<bar>x\<bar> - int p + 1)
           in of_int (round_half_even (x / u)) * u)"

text \<open>\<^verbatim>\<open>a + b\<close> and \<^verbatim>\<open>a / b\<close> on floats, and the conversion of an \<^verbatim>\<open>int\<close> to a float.\<close>

definition float_add :: "nat \<Rightarrow> real \<Rightarrow> real \<Rightarrow> real" where
  "float_add p a b = fl p (a + b)"

definition float_div :: "nat \<Rightarrow> real \<Rightarrow> real \<Rightarrow> real" where
  "float_div p a b = fl p (a / b)"

definition float_of_int :: "nat \<Rightarrow> int \<Rightarrow> real" where
  "float_of_int p n = fl p (of_int n)"

subsection \<open>Averages of the reading lists\<close>

text \<open>
  \<^verbatim>\<open>sum(readings)\<close> on a list of floats: the built-in starts from the \<^verbatim>\<open>int\<close> 0 and adds
  the entries from left to right with \<^verbatim>\<open>+\<close>, each addition rounding.
\<close>

definition py_sum :: "nat \<Rightarrow> real list \<Rightarrow> real" where
  "py_sum p readings = foldl (float_add p) 0 readings"

text \<open>
  \<^verbatim>\<open>avg_temp = sum(temp_readings) / len(temp_readings) if temp_readings else None\<close>,
  and the same expression for the humidity and lux lists. The length is an \<^verbatim>\<open>int\<close>, which
  \<^verbatim>\<open>/\<close> converts to a float before it divides. The readings of these three lists are taken
  to be floats; where a driver hands out \<^verbatim>\<open>int\<close>s instead, Python adds them exactly, which
  gives the same sum as long as the sum of the magnitudes stays below \<open>2 ^ p\<close>.
\<close>

definition average :: "nat \<Rightarrow> real list \<Rightarrow> real option" where
  "average p readings =
     (if readings \<noteq> []
      then Some (float_div p (py_sum p readings) (float_of_int p (int (length readings))))
      else None)"

text \<open>
  The same expression on \<^verbatim>\<open>moisture_readings\<close>, a list of \<^verbatim>\<open>int\<close>s: the sum is an exact
  \<^verbatim>\<open>int\<close>, and \<^verbatim>\<open>/\<close> converts both operands to floats and divides them.
\<close>

definition average_int :: "nat \<Rightarrow> int list \<Rightarrow> real option" where
  "average_int p readings =
     (if readings \<noteq> []
      then Some (float_div p (float_of_int p (sum_list readings))
                   (float_of_int p (int (length readings))))
      else None)"

text \<open>
  The arithmetic mean of a non-empty list over the reals, without any rounding. This is the
  statement to compare \<open>average\<close> with, not a part of the script.
\<close>

definition arithmetic_mean :: "real list \<Rightarrow> real" where
  "arithmetic_mean readings = sum_list readings / real (length readings)"

subsection \<open>The outside world\<close>

text \<open>
  Every call that leaves the script is answered from a tape. The state counts the external
  calls made so far (\<open>calls\<close>); the answer to a call is the tape entry at that index, and the
  call advances the index by one. The four \<open>_init\<close> flags say whether the \<^verbatim>\<open>try\<close> block of
  that device in \<^verbatim>\<open>initialize_sensors\<close> runs to its end. The world also fixes the float
  format of the interpreter that runs the script.
\<close>

record world =
  oled_init :: bool
  bh1750_init :: bool
  dht11_init :: bool
  soil_init :: bool
  isconnected :: "nat \<Rightarrow> bool" \<comment> \<open>\<^verbatim>\<open>wlan.isconnected()\<close>\<close>
  mqtt_returns :: "nat \<Rightarrow> bool" \<comment> \<open>a call of the MQTT client returns (\<open>True\<close>) or raises\<close>
  time_now :: "nat \<Rightarrow> int" \<comment> \<open>\<^verbatim>\<open>time.time()\<close>, in seconds\<close>
  dht_measure :: "nat \<Rightarrow> (real \<times> real) outcome" \<comment> \<open>temperature and humidity\<close>
  luminance :: "nat \<Rightarrow> real outcome"
  read_u16 :: "nat \<Rightarrow> int outcome"
  float_bits :: nat \<comment> \<open>the significand bits of the interpreter's floats\<close>

subsection \<open>Module-level state\<close>

text \<open>A driver or client object; the script only ever tests such a variable against \<^verbatim>\<open>None\<close>.\<close>

datatype obj = Obj

text \<open>The value handed to a publish call, before \<^verbatim>\<open>str\<close> or \<^verbatim>\<open>json.dumps\<close> renders it.\<close>

datatype payload =
  Text string
  | Number real
  | DiscoveryConfig string \<comment> \<open>the discovery dictionary of the sensor with this id\<close>

text \<open>The calls of the MQTT client that the script makes.\<close>

datatype mqtt_call =
  Disconnect
  | Connect
  | Publish string payload bool \<comment> \<open>topic, message, retain\<close>
  | Ping
  | CheckMsg

text \<open>
  \<^verbatim>\<open>connection_status = {"wifi": False, "mqtt": False, "last_successful_publish": 0}\<close>: three
  fixed keys with values of different types, hence a record.
\<close>

record connection_status =
  wifi :: bool
  mqtt :: bool
  last_successful_publish :: int

text \<open>
  The two other dictionaries are maps from the key strings. \<open>calls\<close> and \<open>mqtt_log\<close> are not
  variables of the script: the first indexes the tapes of the world, the second records
  every call made on the MQTT client, oldest first.
\<close>

record state =
  oled :: "obj option"
  light_sensor :: "obj option"
  dht_sensor :: "obj option"
  soil_moisture_adc :: "obj option"
  wlan :: "obj option"
  mqtt_client :: "obj option"
  sensor_status :: "string \<rightharpoonup> bool"
  failed_sensor_reads :: "string \<rightharpoonup> nat"
  connection_status :: connection_status
  last_publish_time :: int
  last_sensor_read_time :: int
  last_connection_check :: int
  last_status_update :: int
  last_gc_time :: int
  temp_readings :: "real list"
  hum_readings :: "real list"
  lux_readings :: "real list"
  moisture_readings :: "int list"
  calls :: nat
  mqtt_log :: "mqtt_call list"

definition initial_state :: state where
  "initial_state =
     \<lparr>oled = None, light_sensor = None, dht_sensor = None, soil_moisture_adc = None,
      wlan = None, mqtt_client = None,
      sensor_status = [''dht11'' \<mapsto> False, ''bh1750'' \<mapsto> False,
                       ''soil_moisture'' \<mapsto> False, ''oled'' \<mapsto> False],
      failed_sensor_reads = [''dht11'' \<mapsto> 0, ''bh1750'' \<mapsto> 0, ''soil_moisture'' \<mapsto> 0],
      connection_status = \<lparr>wifi = False, mqtt = False, last_successful_publish = 0\<rparr>,
      last_publish_time = 0, last_sensor_read_time = 0, last_connection_check = 0,
      last_status_update = 0, last_gc_time = 0,
      temp_readings = [], hum_readings = [], lux_readings = [], moisture_readings = [],
      calls = 0, mqtt_log = []\<rparr>"

subsection \<open>Plumbing: exceptions, dictionary access, external calls\<close>

text \<open>Sequencing of computations that may raise.\<close>

definition bind_result :: "error + 'a \<Rightarrow> ('a \<Rightarrow> error + 'b) \<Rightarrow> error + 'b" where
  "bind_result m f = (case m of Inl e \<Rightarrow> Inl e | Inr x \<Rightarrow> f x)"

text \<open>\<^verbatim>\<open>d[key]\<close>: raises \<^verbatim>\<open>KeyError\<close> when the key is missing.\<close>

definition lookup :: "(string \<rightharpoonup> 'v) \<Rightarrow> string \<Rightarrow> error + 'v" where
  "lookup d key = (case d key of None \<Rightarrow> Inl KeyError | Some v \<Rightarrow> Inr v)"

text \<open>\<^verbatim>\<open>connection_status["wifi"] = b\<close> and \<^verbatim>\<open>connection_status["mqtt"] = b\<close>.\<close>

definition set_wifi :: "bool \<Rightarrow> state \<Rightarrow> state" where
  "set_wifi b s = s\<lparr>connection_status := (connection_status s)\<lparr>wifi := b\<rparr>\<rparr>"

definition set_mqtt :: "bool \<Rightarrow> state \<Rightarrow> state" where
  "set_mqtt b s = s\<lparr>connection_status := (connection_status s)\<lparr>mqtt := b\<rparr>\<rparr>"

text \<open>An external call consumes one tape index.\<close>

definition advance :: "state \<Rightarrow> state" where
  "advance s = s\<lparr>calls := Suc (calls s)\<rparr>"

text \<open>
  A call on the MQTT client: it is logged, and the tape says whether it returns or raises.
\<close>

definition mqtt_invoke :: "world \<Rightarrow> mqtt_call \<Rightarrow> state \<Rightarrow> bool \<times> state" where
  "mqtt_invoke w c s =
     (mqtt_returns w (calls s), s\<lparr>calls := Suc (calls s), mqtt_log := mqtt_log s @ [c]\<rparr>)"

subsection \<open>Sensor initialisation\<close>

text \<open>
  \<^verbatim>\<open>initialize_sensors\<close>: the four \<^verbatim>\<open>try\<close> blocks, in the order OLED, BH1750, DHT11, soil
  moisture. Each sets the driver variable and the \<^verbatim>\<open>sensor_status\<close> entry, or on an exception
  sets the variable to \<^verbatim>\<open>None\<close> and the entry to \<^verbatim>\<open>False\<close>. The I2C set-up and scan before
  the first block are taken not to raise.
\<close>

definition initialize_sensors :: "world \<Rightarrow> state \<Rightarrow> state" where
  "initialize_sensors w s =
     (let s = (if oled_init w
               then s\<lparr>oled := Some Obj, sensor_status := (sensor_status s)(''oled'' \<mapsto> True)\<rparr>
               else s\<lparr>oled := None, sensor_status := (sensor_status s)(''oled'' \<mapsto> False)\<rparr>);
          s = (if bh1750_init w
               then s\<lparr>light_sensor := Some Obj,
                      sensor_status := (sensor_status s)(''bh1750'' \<mapsto> True)\<rparr>
               else s\<lparr>light_sensor := None,
                      sensor_status := (sensor_status s)(''bh1750'' \<mapsto> False)\<rparr>);
          s = (if dht11_init w
               then s\<lparr>dht_sensor := Some Obj,
                      sensor_status := (sensor_status s)(''dht11'' \<mapsto> True)\<rparr>
               else s\<lparr>dht_sensor := None,
                      sensor_status := (sensor_status s)(''dht11'' \<mapsto> False)\<rparr>);
          s = (if soil_init w
               then s\<lparr>soil_moisture_adc := Some Obj,
                      sensor_status := (sensor_status s)(''soil_moisture'' \<mapsto> True)\<rparr>
               else s\<lparr>soil_moisture_adc := None,
                      sensor_status := (sensor_status s)(''soil_moisture'' \<mapsto> False)\<rparr>)
      in s)"

subsection \<open>WiFi\<close>

text \<open>
  \<^verbatim>\<open>
  while not wlan.isconnected() and attempt < 10:
      time.sleep(2)
      attempt += 1
  \<close>
  Each evaluation of the loop condition asks the driver once.
\<close>

function wait_for_wifi :: "world \<Rightarrow> nat \<Rightarrow> state \<Rightarrow> state" where
  "wait_for_wifi w attempt s =
     (if \<not> isconnected w (calls s) \<and> attempt < 10
      then wait_for_wifi w (Suc attempt) (advance s)
      else advance s)"
  by pat_completeness auto
termination
  by (relation "measure (\<lambda>(w, attempt, s). 10 - attempt)") auto

declare wait_for_wifi.simps [simp del]

text \<open>
  \<^verbatim>\<open>
  def connect_wifi():
      global wlan
      if wlan is None:
          wlan = network.WLAN(network.STA_IF)
      wlan.active(True)
      if not wlan.isconnected():
          wlan.connect(ssid, password)
          attempt = 0
          while ...
      connected = wlan.isconnected()
      connection_status["wifi"] = connected
      if connected: return True
      else: return False
  \<close>
  The calls \<^verbatim>\<open>network.WLAN\<close>, \<^verbatim>\<open>wlan.active\<close> and \<^verbatim>\<open>wlan.connect\<close> are taken not to raise.
\<close>

definition connect_wifi :: "world \<Rightarrow> state \<Rightarrow> bool \<times> state" where
  "connect_wifi w s =
     (let s = (if wlan s = None then s\<lparr>wlan := Some Obj\<rparr> else s);
          up = isconnected w (calls s);
          s = advance s;
          s = (if \<not> up then wait_for_wifi w 0 s else s);
          connected = isconnected w (calls s);
          s = set_wifi connected (advance s)
      in (connected, s))"

subsection \<open>MQTT session\<close>

definition test_topic :: string where
  "test_topic = ''homeassistant/sensor/pico_w_01/test/state''"

text \<open>
  \<^verbatim>\<open>
  def connect_mqtt():
      global mqtt_client
      try:
          if mqtt_client is not None:
              try: mqtt_client.disconnect()
              except: pass
          mqtt_client = MQTTClient(...)
          mqtt_client.connect()
          connection_status["mqtt"] = True
          mqtt_client.publish(test_topic, "connected")
          return True
      except Exception as e:
          mqtt_client = None
          connection_status["mqtt"] = False
          return False
  \<close>
  The constructor \<^verbatim>\<open>MQTTClient(...)\<close> only stores its arguments and is taken not to raise.
\<close>

definition connect_mqtt :: "world \<Rightarrow> state \<Rightarrow> bool \<times> state" where
  "connect_mqtt w s =
     (let s = (if mqtt_client s \<noteq> None then snd (mqtt_invoke w Disconnect s) else s);
          s = s\<lparr>mqtt_client := Some Obj\<rparr>;
          (connected, s) = mqtt_invoke w Connect s
      in if \<not> connected then (False, set_mqtt False (s\<lparr>mqtt_client := None\<rparr>))
         else let s = set_mqtt True s;
                  (published, s) = mqtt_invoke w (Publish test_topic (Text ''connected'') False) s
              in if \<not> published then (False, set_mqtt False (s\<lparr>mqtt_client := None\<rparr>))
                 else (True, s))"

text \<open>\<^verbatim>\<open>return mqtt_client is not None and connection_status["mqtt"]\<close>\<close>

definition is_mqtt_connected :: "state \<Rightarrow> bool" where
  "is_mqtt_connected s \<longleftrightarrow> mqtt_client s \<noteq> None \<and> mqtt (connection_status s)"

definition config_topic :: "string \<Rightarrow> string" where
  "config_topic sensor_id = ''homeassistant/sensor/pico_w_01/'' @ sensor_id @ ''/config''"

definition state_topic :: "string \<Rightarrow> string" where
  "state_topic sensor_id = ''homeassistant/sensor/pico_w_01/'' @ sensor_id @ ''/state''"

text \<open>
  The loop of \<^verbatim>\<open>publish_discovery_config\<close> over the five sensor descriptions. An exception
  of the publish call is caught and printed; nothing else changes.
\<close>

fun publish_discovery_each :: "world \<Rightarrow> string list \<Rightarrow> state \<Rightarrow> state" where
  "publish_discovery_each w [] s = s"
| "publish_discovery_each w (sensor_id # sensors) s =
     publish_discovery_each w sensors
       (if mqtt_client s \<noteq> None
        then snd (mqtt_invoke w (Publish (config_topic sensor_id) (DiscoveryConfig sensor_id) True) s)
        else s)"

definition publish_discovery_config :: "world \<Rightarrow> state \<Rightarrow> state" where
  "publish_discovery_config w s =
     (if \<not> is_mqtt_connected s \<or> mqtt_client s = None then s
      else publish_discovery_each w
             [''humidity'', ''temperature'', ''lux'', ''soil_moisture'', ''status''] s)"

text \<open>
  \<^verbatim>\<open>
  def safe_publish(topic, value, retain=False):
      if not is_mqtt_connected():
          return False
      try:
          mqtt_client.publish(topic, str(value), retain=retain)
          return True
      except Exception as e:
          connection_status["mqtt"] = False  # Mark as disconnected on failure
          return False
  \<close>
\<close>

definition safe_publish :: "world \<Rightarrow> string \<Rightarrow> payload \<Rightarrow> bool \<Rightarrow> state \<Rightarrow> bool \<times> state" where
  "safe_publish w topic val retain s =
     (if \<not> is_mqtt_connected s then (False, s)
      else let (returned, s) = mqtt_invoke w (Publish topic val retain) s
           in if returned then (True, s) else (False, set_mqtt False s))"

text \<open>
  The loop of \<^verbatim>\<open>publish_sensor_data\<close> over \<^verbatim>\<open>sensors_data\<close>, with the running
  \<^verbatim>\<open>published_count\<close>:
  \<^verbatim>\<open>
  for sensor_type, value in sensors_data:
      if value is not None:
          topic = f"homeassistant/sensor/pico_w_01/{sensor_type}/state"
          if safe_publish(topic, value, retain=True):
              published_count += 1
  \<close>
\<close>

fun publish_each :: "world \<Rightarrow> (string \<times> real option) list \<Rightarrow> nat \<Rightarrow> state \<Rightarrow> nat \<times> state" where
  "publish_each w [] published_count s = (published_count, s)"
| "publish_each w ((sensor_type, None) # sensors_data) published_count s =
     publish_each w sensors_data published_count s"
| "publish_each w ((sensor_type, Some v) # sensors_data) published_count s =
     (let (ok, s) = safe_publish w (state_topic sensor_type) (Number v) True s
      in publish_each w sensors_data (if ok then published_count + 1 else published_count) s)"

definition publish_sensor_data ::
  "world \<Rightarrow> real option \<Rightarrow> real option \<Rightarrow> real option \<Rightarrow> real option \<Rightarrow> state \<Rightarrow> nat \<times> state" where
  "publish_sensor_data w temp hum lux moisture s =
     (if \<not> is_mqtt_connected s then (0, s)
      else publish_each w
             [(''temperature'', temp), (''humidity'', hum), (''lux'', lux),
              (''soil_moisture'', moisture)] 0 s)"

subsection \<open>Device status\<close>

text \<open>Python's \<^verbatim>\<open>str\<close> of a non-negative integer, as the f-string of the status renders it.\<close>

definition digit_char :: "nat \<Rightarrow> char" where
  "digit_char d = ''0123456789'' ! (d mod 10)"

function str_nat :: "nat \<Rightarrow> string" where
  "str_nat n = (if n < 10 then [digit_char n] else str_nat (n div 10) @ [digit_char (n mod 10)])"
  by pat_completeness auto
termination
  by (relation "measure (\<lambda>n. n)") auto

declare str_nat.simps [simp del]

text \<open>
  The counter test of \<^verbatim>\<open>publish_device_status\<close>: \<^verbatim>\<open>failed_sensor_reads[name] < 5\<close>.
\<close>

definition is_healthy :: "state \<Rightarrow> string \<Rightarrow> error + bool" where
  "is_healthy s name = bind_result (lookup (failed_sensor_reads s) name) (\<lambda>failed. Inr (failed < 5))"

text \<open>
  One summand of \<^verbatim>\<open>working_sensors\<close>:
  \<^verbatim>\<open>sensor_status[name] and failed_sensor_reads[name] < 5\<close>. The second dictionary is
  only read when the first entry is true.
\<close>

definition sensor_working :: "state \<Rightarrow> string \<Rightarrow> error + bool" where
  "sensor_working s name =
     bind_result (lookup (sensor_status s) name)
       (\<lambda>initialised. if initialised then is_healthy s name else Inr False)"

text \<open>
  \<^verbatim>\<open>working_sensors = sum([... "dht11" ..., ... "bh1750" ..., ... "soil_moisture" ...])\<close>:
  the number of true entries.
\<close>

definition working_sensors :: "state \<Rightarrow> error + nat" where
  "working_sensors s =
     bind_result (sensor_working s ''dht11'') (\<lambda>a.
     bind_result (sensor_working s ''bh1750'') (\<lambda>b.
     bind_result (sensor_working s ''soil_moisture'') (\<lambda>c.
       Inr (of_bool a + of_bool b + of_bool c))))"

text \<open>
  \<^verbatim>\<open>total_sensors = sum([sensor_status["dht11"], sensor_status["bh1750"],
  sensor_status["soil_moisture"]])\<close>
\<close>

definition total_sensors :: "state \<Rightarrow> error + nat" where
  "total_sensors s =
     bind_result (lookup (sensor_status s) ''dht11'') (\<lambda>a.
     bind_result (lookup (sensor_status s) ''bh1750'') (\<lambda>b.
     bind_result (lookup (sensor_status s) ''soil_moisture'') (\<lambda>c.
       Inr (of_bool a + of_bool b + of_bool c))))"

text \<open>
  The status string of \<^verbatim>\<open>publish_device_status\<close>:
  \<^verbatim>\<open>
  if not connection_status["wifi"]:
      status = "WiFi Disconnected"
  elif not connection_status["mqtt"]:
      status = "MQTT Disconnected"
  elif working_sensors == 0:
      status = "All Sensors Failed"
  elif working_sensors < total_sensors:
      status = f"Partial ({working_sensors}/{total_sensors} sensors)"
  elif time.time() - connection_status["last_successful_publish"] > 300:
      status = "Publish Timeout"
  else:
      status = "Online"
  \<close>
  The clock is read only when the fifth test is reached.
\<close>

definition device_status :: "world \<Rightarrow> state \<Rightarrow> error + (string \<times> state)" where
  "device_status w s =
     bind_result (working_sensors s) (\<lambda>working.
     bind_result (total_sensors s) (\<lambda>total.
       Inr (if \<not> wifi (connection_status s) then (''WiFi Disconnected'', s)
            else if \<not> mqtt (connection_status s) then (''MQTT Disconnected'', s)
            else if working = 0 then (''All Sensors Failed'', s)
            else if working < total
              then (''Partial ('' @ str_nat working @ ''/'' @ str_nat total @ '' sensors)'', s)
            else if time_now w (calls s) - last_successful_publish (connection_status s) > 300
              then (''Publish Timeout'', advance s)
            else (''Online'', advance s))))"

definition status_topic :: string where
  "status_topic = ''homeassistant/sensor/pico_w_01/status/state''"

text \<open>\<^verbatim>\<open>publish_device_status\<close> ends with \<^verbatim>\<open>return safe_publish(topic, status)\<close>.\<close>

definition publish_device_status :: "world \<Rightarrow> state \<Rightarrow> error + (bool \<times> state)" where
  "publish_device_status w s =
     bind_result (device_status w s) (\<lambda>(status, s).
       Inr (safe_publish w status_topic (Text status) False s))"

subsection \<open>Reading the sensors\<close>

text \<open>
  \<^verbatim>\<open>
  def safe_sensor_read(sensor_name, read_function):
      try:
          result = read_function()
          failed_sensor_reads[sensor_name] = 0
          return result
      except Exception as e:
          failed_sensor_reads[sensor_name] += 1
          return None
  \<close>
  The second argument is what the call of \<^verbatim>\<open>read_function\<close> does: it raises or returns a
  Python value, which may itself be \<^verbatim>\<open>None\<close>. The increment in the handler reads the
  entry first and raises \<^verbatim>\<open>KeyError\<close> when there is none.
\<close>

definition safe_sensor_read ::
  "string \<Rightarrow> 'a option outcome \<Rightarrow> state \<Rightarrow> error + ('a option \<times> state)" where
  "safe_sensor_read sensor_name read_function s =
     (case read_function of
        Returns result \<Rightarrow>
          Inr (result, s\<lparr>failed_sensor_reads := (failed_sensor_reads s)(sensor_name \<mapsto> 0)\<rparr>)
      | Raises \<Rightarrow>
          bind_result (lookup (failed_sensor_reads s) sensor_name) (\<lambda>failed.
            Inr (None, s\<lparr>failed_sensor_reads := (failed_sensor_reads s)(sensor_name \<mapsto> failed + 1)\<rparr>)))"

text \<open>
  The three read functions of \<^verbatim>\<open>read_sensors_once\<close>, each applied to the world: the driver
  is called only when the driver variable is not \<^verbatim>\<open>None\<close>. The result is what the call does
  and the state after it.
  \<^verbatim>\<open>
  def read_dht():
      if dht_sensor is None:
          return None, None
      dht_sensor.measure()
      return dht_sensor.temperature(), dht_sensor.humidity()
  \<close>
\<close>

definition read_dht :: "world \<Rightarrow> state \<Rightarrow> (real option \<times> real option) option outcome \<times> state" where
  "read_dht w s =
     (if dht_sensor s = None then (Returns (Some (None, None)), s)
      else (case dht_measure w (calls s) of
              Raises \<Rightarrow> Raises
            | Returns (t, h) \<Rightarrow> Returns (Some (Some t, Some h)),
            advance s))"

text \<open>\<^verbatim>\<open>lambda: light_sensor.luminance(BH1750.ONCE_HIRES_1) if light_sensor else None\<close>\<close>

definition read_light :: "world \<Rightarrow> state \<Rightarrow> real option outcome \<times> state" where
  "read_light w s =
     (if light_sensor s = None then (Returns None, s)
      else (case luminance w (calls s) of Raises \<Rightarrow> Raises | Returns v \<Rightarrow> Returns (Some v),
            advance s))"

text \<open>\<^verbatim>\<open>lambda: soil_moisture_adc.read_u16() if soil_moisture_adc else None\<close>\<close>

definition read_soil :: "world \<Rightarrow> state \<Rightarrow> int option outcome \<times> state" where
  "read_soil w s =
     (if soil_moisture_adc s = None then (Returns None, s)
      else (case read_u16 w (calls s) of Raises \<Rightarrow> Raises | Returns v \<Rightarrow> Returns (Some v),
            advance s))"

text \<open>
  \<^verbatim>\<open>
  def read_sensors_once():
      temp, hum = safe_sensor_read("dht11", read_dht) or (None, None)
      lux = safe_sensor_read("bh1750", lambda: ...)
      moisture_raw = safe_sensor_read("soil_moisture", lambda: ...)
      moisture = (get_soil_moisture_percent(moisture_raw)
                  if moisture_raw is not None else None)
      return temp, hum, lux, moisture
  \<close>
  A tuple is true in Python even when both components are \<^verbatim>\<open>None\<close>, so the \<^verbatim>\<open>or\<close> only
  replaces the \<^verbatim>\<open>None\<close> of a failed read.
\<close>

definition read_sensors_once ::
  "config \<Rightarrow> world \<Rightarrow> state \<Rightarrow>
     error + ((real option \<times> real option \<times> real option \<times> int option) \<times> state)" where
  "read_sensors_once cfg w s =
     (let (r, s) = read_dht w s in
      bind_result (safe_sensor_read ''dht11'' r s) (\<lambda>(th, s).
        let (temp, hum) = (case th of None \<Rightarrow> (None, None) | Some p \<Rightarrow> p);
            (r, s) = read_light w s in
        bind_result (safe_sensor_read ''bh1750'' r s) (\<lambda>(lux, s).
          let (r, s) = read_soil w s in
          bind_result (safe_sensor_read ''soil_moisture'' r s) (\<lambda>(moisture_raw, s).
            bind_result
              (case moisture_raw of
                 None \<Rightarrow> Inr None
               | Some raw \<Rightarrow>
                   bind_result
                     (get_soil_moisture_percent raw (SOIL_MOISTURE_DRY cfg) (SOIL_MOISTURE_WET cfg))
                     (\<lambda>percent. Inr (Some percent)))
              (\<lambda>moisture. Inr ((temp, hum, lux, moisture), s))))))"

text \<open>The status string alone, without the state after the clock read.\<close>

definition status_of :: "world \<Rightarrow> state \<Rightarrow> error + string" where
  "status_of w s = bind_result (device_status w s) (\<lambda>(status, s). Inr status)"

subsection \<open>Start-up\<close>

text \<open>
  The module-level code before the loop:
  \<^verbatim>\<open>
  initialize_sensors()
  if not connect_wifi():
      print("Initial WiFi connection failed, continuing and will retry in loop")
  if not connect_mqtt():
      print("Initial MQTT connection failed, will retry in loop")
  else:
      time.sleep(1)
      publish_discovery_config()
      publish_device_status()
  \<close>
  The timers and reading lists that the script initialises after this point are already
  part of \<open>initial_state\<close>; nothing before the loop reads them.
\<close>

definition startup :: "world \<Rightarrow> error + state" where
  "startup w =
     (let s = initialize_sensors w initial_state;
          (linked, s) = connect_wifi w s;
          (connected, s) = connect_mqtt w s
      in if \<not> connected then Inr s
         else bind_result (publish_device_status w (publish_discovery_config w s))
                (\<lambda>(published, s). Inr s))"

subsection \<open>One iteration of the main loop\<close>

text \<open>
  \<^verbatim>\<open>
  if is_mqtt_connected() and mqtt_client is not None:
      try:
          mqtt_client.check_msg()
      except Exception as e:
          connection_status["mqtt"] = False
  \<close>
\<close>

definition keepalive :: "world \<Rightarrow> state \<Rightarrow> state" where
  "keepalive w s =
     (if is_mqtt_connected s \<and> mqtt_client s \<noteq> None
      then let (returned, s) = mqtt_invoke w CheckMsg s
           in if returned then s else set_mqtt False s
      else s)"

text \<open>
  \<^verbatim>\<open>
  if current_time - last_gc_time >= 300:
      force_gc()
      last_gc_time = current_time
  \<close>
  \<^verbatim>\<open>force_gc\<close> touches no variable of the script.
\<close>

definition collect_garbage :: "int \<Rightarrow> state \<Rightarrow> state" where
  "collect_garbage current_time s =
     (if current_time - last_gc_time s \<ge> 300 then s\<lparr>last_gc_time := current_time\<rparr> else s)"

text \<open>
  \<^verbatim>\<open>
  if current_time - last_connection_check >= 60:
      wifi_was_connected = connection_status["wifi"]
      mqtt_was_connected = connection_status["mqtt"]
      if wlan is None or not wlan.isconnected():
          connect_wifi()
      else:
          connection_status["wifi"] = True
      if mqtt_client is not None:
          try:
              mqtt_client.ping()
              connection_status["mqtt"] = True
          except:
              connection_status["mqtt"] = False
              connect_mqtt()
              if is_mqtt_connected():
                  publish_discovery_config()
                  publish_device_status()
      else:
          connection_status["mqtt"] = False
      if (wifi_was_connected != connection_status["wifi"]
              or mqtt_was_connected != connection_status["mqtt"]):
          publish_device_status()
      last_connection_check = current_time
  \<close>
\<close>

definition check_wifi :: "world \<Rightarrow> state \<Rightarrow> state" where
  "check_wifi w s =
     (if wlan s = None then snd (connect_wifi w s)
      else if \<not> isconnected w (calls s) then snd (connect_wifi w (advance s))
      else set_wifi True (advance s))"

definition check_mqtt :: "world \<Rightarrow> state \<Rightarrow> error + state" where
  "check_mqtt w s =
     (if mqtt_client s \<noteq> None
      then let (returned, s) = mqtt_invoke w Ping s
           in if returned then Inr (set_mqtt True s)
              else let s = snd (connect_mqtt w (set_mqtt False s))
                   in if is_mqtt_connected s
                      then bind_result (publish_device_status w (publish_discovery_config w s))
                             (\<lambda>(published, s). Inr s)
                      else Inr s
      else Inr (set_mqtt False s))"

definition check_connections :: "world \<Rightarrow> int \<Rightarrow> state \<Rightarrow> error + state" where
  "check_connections w current_time s =
     (if current_time - last_connection_check s \<ge> 60
      then let wifi_was_connected = wifi (connection_status s);
               mqtt_was_connected = mqtt (connection_status s)
           in bind_result (check_mqtt w (check_wifi w s)) (\<lambda>s.
              bind_result
                (if wifi_was_connected \<noteq> wifi (connection_status s)
                    \<or> mqtt_was_connected \<noteq> mqtt (connection_status s)
                 then bind_result (publish_device_status w s) (\<lambda>(published, s). Inr s)
                 else Inr s)
                (\<lambda>s. Inr (s\<lparr>last_connection_check := current_time\<rparr>)))
      else Inr s)"

text \<open>
  \<^verbatim>\<open>
  if current_time - last_status_update >= STATUS_UPDATE_INTERVAL:
      publish_device_status()
      last_status_update = current_time
  \<close>
\<close>

definition status_update :: "config \<Rightarrow> world \<Rightarrow> int \<Rightarrow> state \<Rightarrow> error + state" where
  "status_update cfg w current_time s =
     (if current_time - last_status_update s \<ge> STATUS_UPDATE_INTERVAL cfg
      then bind_result (publish_device_status w s)
             (\<lambda>(published, s). Inr (s\<lparr>last_status_update := current_time\<rparr>))
      else Inr s)"

text \<open>
  \<^verbatim>\<open>
  if current_time - last_sensor_read_time >= SENSOR_READ_INTERVAL:
      temp, hum, lux, moisture = read_sensors_once()
      if temp is not None: temp_readings.append(temp)
      if hum is not None: hum_readings.append(hum)
      if lux is not None: lux_readings.append(lux)
      if moisture is not None: moisture_readings.append(moisture)
      last_sensor_read_time = current_time
  \<close>
\<close>

definition append_reading :: "'a option \<Rightarrow> 'a list \<Rightarrow> 'a list" where
  "append_reading v readings = (case v of None \<Rightarrow> readings | Some x \<Rightarrow> readings @ [x])"

definition sensor_read :: "config \<Rightarrow> world \<Rightarrow> int \<Rightarrow> state \<Rightarrow> error + state" where
  "sensor_read cfg w current_time s =
     (if current_time - last_sensor_read_time s \<ge> SENSOR_READ_INTERVAL cfg
      then bind_result (read_sensors_once cfg w s) (\<lambda>((temp, hum, lux, moisture), s).
             Inr (s\<lparr>temp_readings := append_reading temp (temp_readings s),
                    hum_readings := append_reading hum (hum_readings s),
                    lux_readings := append_reading lux (lux_readings s),
                    moisture_readings := append_reading moisture (moisture_readings s),
                    last_sensor_read_time := current_time\<rparr>))
      else Inr s)"

text \<open>
  The body of the last block of the loop, the publish cycle:
  \<^verbatim>\<open>
  avg_temp = sum(temp_readings) / len(temp_readings) if temp_readings else None
  ... (the same for hum, lux, moisture)
  update_oled(avg_temp, avg_hum, avg_lux, avg_moisture)
  published_count = publish_sensor_data(avg_temp, avg_hum, avg_lux, avg_moisture)
  if published_count > 0:
      connection_status["last_successful_publish"] = current_time
  for readings_list in [temp_readings, hum_readings, lux_readings, moisture_readings]:
      readings_list.clear()
  last_publish_time = current_time
  \<close>
  \<^verbatim>\<open>update_oled\<close> catches every exception of the display and changes no variable.
\<close>

definition publish_cycle :: "world \<Rightarrow> int \<Rightarrow> state \<Rightarrow> state" where
  "publish_cycle w current_time s =
     (let avg_temp = average (float_bits w) (temp_readings s);
          avg_hum = average (float_bits w) (hum_readings s);
          avg_lux = average (float_bits w) (lux_readings s);
          avg_moisture = average_int (float_bits w) (moisture_readings s);
          (published_count, s) = publish_sensor_data w avg_temp avg_hum avg_lux avg_moisture s;
          s = (if published_count > 0
               then s\<lparr>connection_status :=
                        (connection_status s)\<lparr>last_successful_publish := current_time\<rparr>\<rparr>
               else s)
      in s\<lparr>temp_readings := [], hum_readings := [], lux_readings := [],
           moisture_readings := [], last_publish_time := current_time\<rparr>)"

text \<open>\<^verbatim>\<open>if current_time - last_publish_time >= PUBLISH_INTERVAL:\<close> the publish cycle.\<close>

definition publish_due :: "config \<Rightarrow> int \<Rightarrow> state \<Rightarrow> bool" where
  "publish_due cfg current_time s \<longleftrightarrow> current_time - last_publish_time s \<ge> PUBLISH_INTERVAL cfg"

definition publish_averages :: "config \<Rightarrow> world \<Rightarrow> int \<Rightarrow> state \<Rightarrow> state" where
  "publish_averages cfg w current_time s =
     (if publish_due cfg current_time s then publish_cycle w current_time s else s)"

text \<open>
  One pass through the body of \<^verbatim>\<open>while True:\<close>. It starts with
  \<^verbatim>\<open>current_time = time.time()\<close> and runs the six blocks in the order of the script.
\<close>

definition tick_time :: "world \<Rightarrow> state \<Rightarrow> int" where
  "tick_time w s = time_now w (calls s)"

definition tick :: "config \<Rightarrow> world \<Rightarrow> state \<Rightarrow> error + state" where
  "tick cfg w s =
     (let current_time = tick_time w s;
          s = advance s;
          s = keepalive w s;
          s = collect_garbage current_time s
      in bind_result (check_connections w current_time s) (\<lambda>s.
         bind_result (status_update cfg w current_time s) (\<lambda>s.
         bind_result (sensor_read cfg w current_time s) (\<lambda>s.
           Inr (publish_averages cfg w current_time s)))))"

text \<open>
  The state at the top of the loop after \<open>n\<close> iterations; an exception that escapes the
  start-up code or an iteration ends the script.
\<close>

fun run :: "config \<Rightarrow> world \<Rightarrow> nat \<Rightarrow> error + state" where
  "run cfg w 0 = startup w"
| "run cfg w (Suc n) = bind_result (run cfg w n) (tick cfg w)"

subsection \<open>Sequences of reads and example inputs\<close>

text \<open>
  Successive calls of \<^verbatim>\<open>safe_sensor_read\<close> for one sensor, one per outcome of its read
  function, as successive rounds of \<^verbatim>\<open>read_sensors_once\<close> make them; the values read are
  dropped.
\<close>

fun safe_sensor_reads :: "string \<Rightarrow> 'a option outcome list \<Rightarrow> state \<Rightarrow> error + state" where
  "safe_sensor_reads sensor_name [] s = Inr s"
| "safe_sensor_reads sensor_name (r # rs) s =
     bind_result (safe_sensor_read sensor_name r s) (\<lambda>(result, s). safe_sensor_reads sensor_name rs s)"

fun is_failure :: "'a outcome \<Rightarrow> bool" where
  "is_failure Raises = True"
| "is_failure (Returns v) = False"

text \<open>The number of failures at the end of a sequence of outcomes, after the last success.\<close>

definition trailing_failures :: "'a outcome list \<Rightarrow> nat" where
  "trailing_failures rs = length (takeWhile is_failure (rev rs))"

text \<open>
  A world in which every device initialises, the link is up, every MQTT call returns, the
  clock stands at 1000 and the sensors read 21 degrees, 40 percent, 300 lux and a raw
  moisture of 29500; floats have the 24 significand bits of single precision.
\<close>

definition fair_world :: world where
  "fair_world =
     \<lparr>oled_init = True, bh1750_init = True, dht11_init = True, soil_init = True,
      isconnected = (\<lambda>n. True), mqtt_returns = (\<lambda>n. True), time_now = (\<lambda>n. 1000),
      dht_measure = (\<lambda>n. Returns (21, 40)), luminance = (\<lambda>n. Returns 300),
      read_u16 = (\<lambda>n. Returns 29500), float_bits = 24\<rparr>"

text \<open>
  A state with all three sensors initialised, link and session up, a client object and
  empty reading lists; the last successful publish was at time 900.
\<close>

definition online_state :: state where
  "online_state =
     initial_state
       \<lparr>light_sensor := Some Obj, dht_sensor := Some Obj, soil_moisture_adc := Some Obj,
        wlan := Some Obj, mqtt_client := Some Obj,
        sensor_status := [''dht11'' \<mapsto> True, ''bh1750'' \<mapsto> True,
                          ''soil_moisture'' \<mapsto> True, ''oled'' \<mapsto> False],
        connection_status := \<lparr>wifi = True, mqtt = True, last_successful_publish = 900\<rparr>\<rparr>"

text \<open>Variants of \<open>online_state\<close>: every sensor at five failed reads; only the DHT11.\<close>

definition all_failed_state :: state where
  "all_failed_state =
     online_state\<lparr>failed_sensor_reads :=
       [''dht11'' \<mapsto> 5, ''bh1750'' \<mapsto> 5, ''soil_moisture'' \<mapsto> 5]\<rparr>"

definition dht_failed_state :: state where
  "dht_failed_state =
     online_state\<lparr>failed_sensor_reads :=
       [''dht11'' \<mapsto> 5, ''bh1750'' \<mapsto> 0, ''soil_moisture'' \<mapsto> 0]\<rparr>"

text \<open>
  The world of \<open>fair_world\<close>, except that the first call of the MQTT client raises (all later
  calls return).
\<close>

definition first_call_fails_world :: world where
  "first_call_fails_world = fair_world\<lparr>mqtt_returns := (\<lambda>n. n \<noteq> 0)\<rparr>"

text \<open>
  The world of \<open>fair_world\<close>, except that the WiFi driver reports no connection during the
  first thirteen external calls, which are the thirteen polls of \<^verbatim>\<open>connect_wifi\<close> at
  start-up: the link comes up just after \<^verbatim>\<open>connect_wifi\<close> has given up.
\<close>

definition late_link_world :: world where
  "late_link_world = fair_world\<lparr>isconnected := (\<lambda>n. 13 \<le> n)\<rparr>"



subsection \<open>Which publishes reach the client\<close>

text \<open>
  The publish calls on the MQTT client that one pass over \<^verbatim>\<open>sensors_data\<close> makes when it
  starts with the session up and the tape index \<open>n\<close>: one for each quantity that is not
  \<^verbatim>\<open>None\<close>, in order, up to and including the first one that raises; none after that. This
  is the statement to compare \<open>publish_each\<close> with, not a part of the script.
\<close>

fun attempted_publishes :: "world \<Rightarrow> nat \<Rightarrow> (string \<times> real option) list \<Rightarrow> mqtt_call list" where
  "attempted_publishes w n [] = []"
| "attempted_publishes w n ((sensor_type, None) # sensors_data) =
     attempted_publishes w n sensors_data"
| "attempted_publishes w n ((sensor_type, Some v) # sensors_data) =
     Publish (state_topic sensor_type) (Number v) True
       # (if mqtt_returns w n then attempted_publishes w (Suc n) sensors_data else [])"

subsection \<open>Two views of the state\<close>

text \<open>
  The variables that belong to the sensors and the reading lists (none of them is assigned
  by the WiFi and MQTT code), and the two variables that decide whether the session counts as
  up. They are used to say what a function leaves alone.
\<close>

definition sensor_side ::
  "state \<Rightarrow> (obj option \<times> obj option \<times> obj option \<times> obj option)
     \<times> (string \<rightharpoonup> bool) \<times> (string \<rightharpoonup> nat)
     \<times> (real list \<times> real list \<times> real list \<times> int list) \<times> int \<times> int" where
  "sensor_side s =
     ((oled s, light_sensor s, dht_sensor s, soil_moisture_adc s),
      sensor_status s, failed_sensor_reads s,
      (temp_readings s, hum_readings s, lux_readings s, moisture_readings s),
      last_publish_time s, last_sensor_read_time s)"

definition session_side :: "state \<Rightarrow> obj option \<times> bool" where
  "session_side s = (mqtt_client s, mqtt (connection_status s))"

text \<open>The session flag is set only when there is a client object.\<close>

definition session_has_client :: "state \<Rightarrow> bool" where
  "session_has_client s \<longleftrightarrow> (mqtt (connection_status s) \<longrightarrow> mqtt_client s \<noteq> None)"

text \<open>
  The state with the failure counters and the tape index blanked out: two states with the
  same image differ at most in those two components.
\<close>

definition without_counters :: "state \<Rightarrow> state" where
  "without_counters s = s\<lparr>failed_sensor_reads := Map.empty, calls := 0\<rparr>"

text \<open>
  A sensor whose driver variable is \<^verbatim>\<open>None\<close> has its failure counter at 0, for each of the
  three sensors.
\<close>

definition absent_sensors_unfailed :: "state \<Rightarrow> bool" where
  "absent_sensors_unfailed s \<longleftrightarrow>
     (dht_sensor s = None \<longrightarrow> failed_sensor_reads s ''dht11'' = Some 0)
     \<and> (light_sensor s = None \<longrightarrow> failed_sensor_reads s ''bh1750'' = Some 0)
     \<and> (soil_moisture_adc s = None \<longrightarrow> failed_sensor_reads s ''soil_moisture'' = Some 0)"

text \<open>The world of \<open>fair_world\<close> with the clock at 30: no timer but the sensor timer is due.\<close>

definition early_world :: world where
  "early_world = fair_world\<lparr>time_now := (\<lambda>n. 30)\<rparr>"

text \<open>The world of \<open>fair_world\<close> in which the DHT11 fails to initialise.\<close>

definition no_dht_world :: world where
  "no_dht_world = fair_world\<lparr>dht11_init := False\<rparr>"

section \<open>Properties\<close>

subsection \<open>Soil moisture mapping\<close>





subsection \<open>Float rounding\<close>

lemma round_half_even_near: "\<bar>of_int (round_half_even r) - r\<bar> \<le> 1 / 2"
  unfolding round_half_even_def Let_def by (auto; linarith)

lemma round_half_even_of_int [simp]: "round_half_even (of_int z) = z"
  by (simp add: round_half_even_def)

lemma ilog2_lower:
  assumes "0 < y"
  shows "2 powi (ilog2 y) \<le> y"
proof (cases "1 \<le> y")
  case True
  then have pos: "0 < \<lfloor>y\<rfloor>" by linarith
  then have "bitlen \<lfloor>y\<rfloor> \<ge> 1"
    by (simp add: bitlen_alt_def)
  moreover have "(2::int) ^ nat (bitlen \<lfloor>y\<rfloor> - 1) \<le> \<lfloor>y\<rfloor>"
    using bitlen_bounds [OF pos] by simp
  then have "real_of_int (2 ^ nat (bitlen \<lfloor>y\<rfloor> - 1)) \<le> y"
    by (simp only: le_floor_iff)
  then have "(2::real) ^ nat (bitlen \<lfloor>y\<rfloor> - 1) \<le> y"
    by simp
  ultimately show ?thesis
    using True by (simp add: ilog2_def power_int_def)
next
  case False
  let ?c = "\<lceil>1 / y\<rceil>"
  from False assms have "1 < 1 / y" by simp
  then have pos: "0 < ?c - 1" by linarith
  let ?k = "bitlen (?c - 1)"
  have "?c - 1 < 2 ^ nat ?k"
    using bitlen_bounds [OF pos] by simp
  then have "?c \<le> 2 ^ nat ?k" by simp
  then have "real_of_int ?c \<le> 2 ^ nat ?k"
    by (metis of_int_le_iff of_int_numeral of_int_power)
  then have "1 / y \<le> 2 ^ nat ?k" by linarith
  then have "1 / 2 ^ nat ?k \<le> y"
    using assms by (simp add: field_simps)
  moreover have "0 \<le> ?k" by (rule bitlen_nonneg)
  ultimately have "inverse (2 powi ?k) \<le> y"
    by (simp add: power_int_def field_simps)
  then show ?thesis
    using False by (simp add: ilog2_def power_int_minus)
qed

lemma fl_error:
  "\<bar>fl p x - x\<bar> \<le> \<bar>x\<bar> / 2 ^ p"
proof (cases "x = 0")
  case True
  then show ?thesis by (simp add: fl_def)
next
  case False
  let ?e = "ilog2 \<bar>x\<bar>"
  let ?u = "(2::real) powi (?e - int p + 1)"
  have u: "0 < ?u" by simp
  have "fl p x - x = ?u * (of_int (round_half_even (x / ?u)) - x / ?u)"
    using False u by (simp add: fl_def Let_def algebra_simps)
  then have "\<bar>fl p x - x\<bar> = ?u * \<bar>of_int (round_half_even (x / ?u)) - x / ?u\<bar>"
    using u by (simp add: abs_mult)
  also have "\<dots> \<le> ?u * (1 / 2)"
    using round_half_even_near [of "x / ?u"] u by (intro mult_left_mono) simp_all
  also have "?u * (1 / 2) = 2 powi ?e / 2 ^ p"
    by (simp add: power_int_add power_int_diff)
  also have "\<dots> \<le> \<bar>x\<bar> / 2 ^ p"
    using ilog2_lower [of "\<bar>x\<bar>"] False by (simp add: divide_right_mono)
  finally show ?thesis .
qed

lemma fl_of_int:
  assumes "\<bar>n\<bar> < 2 ^ p"
  shows "fl p (of_int n) = of_int n"
proof (cases "n = 0")
  case True
  then show ?thesis by (simp add: fl_def)
next
  case False
  then have pos: "0 < \<bar>n\<bar>" by simp
  have "1 \<le> \<bar>n\<bar>"
    using False by simp
  then have "1 \<le> real_of_int \<bar>n\<bar>"
    by (simp only: of_int_1_le_iff)
  then have one: "1 \<le> \<bar>real_of_int n\<bar>"
    by simp
  have fl_n: "\<lfloor>\<bar>real_of_int n\<bar>\<rfloor> = \<bar>n\<bar>"
    by (metis floor_of_int of_int_abs)
  have "bitlen \<bar>n\<bar> \<le> int p"
    using assms by (simp add: bitlen_le_iff_power)
  moreover have "1 \<le> bitlen \<bar>n\<bar>"
    using pos by (simp add: bitlen_alt_def)
  ultimately obtain j :: nat where j: "ilog2 \<bar>real_of_int n\<bar> - int p + 1 = - int j"
    using one fl_n by (simp add: ilog2_def) (metis add.commute diff_ge_0_iff_ge minus_diff_eq nonneg_int_cases diff_diff_eq2)
  have "real_of_int n / 2 powi (- int j) = of_int (n * 2 ^ j)"
    by (simp add: power_int_minus field_simps)
  then have "round_half_even (real_of_int n / 2 powi (- int j)) = n * 2 ^ j"
    by (simp only: round_half_even_of_int)
  then show ?thesis
    using False j by (simp add: fl_def Let_def power_int_minus)
qed


lemma fl_abs_le: "\<bar>fl p x\<bar> \<le> (1 + 1 / 2 ^ p) * \<bar>x\<bar>"
proof -
  have "\<bar>fl p x\<bar> \<le> \<bar>fl p x - x\<bar> + \<bar>x\<bar>"
    by simp
  also have "\<dots> \<le> \<bar>x\<bar> / 2 ^ p + \<bar>x\<bar>"
    using fl_error [of p x] by simp
  finally show ?thesis
    by (simp add: algebra_simps)
qed

lemma foldl_float_add_error:
  "\<bar>foldl (float_add p) a xs - (a + sum_list xs)\<bar>
     \<le> ((1 + 1 / 2 ^ p) ^ length xs - 1) * (\<bar>a\<bar> + sum_list (map abs xs))"
proof (induction xs arbitrary: a)
  case Nil
  then show ?case by simp
next
  case (Cons x xs)
  define eps :: real where "eps = 1 / 2 ^ p"
  define c where "c = (1 + eps) ^ length xs"
  define A where "A = \<bar>a\<bar> + \<bar>x\<bar>"
  define B where "B = sum_list (map abs xs)"
  define a' where "a' = fl p (a + x)"
  define F where "F = foldl (float_add p) a' xs"
  have eps: "0 \<le> eps" by (simp add: eps_def)
  have c: "1 \<le> c" unfolding c_def using eps by (intro one_le_power) simp
  have B: "0 \<le> B" unfolding B_def by (induction xs) simp_all
  have A: "0 \<le> A" by (simp add: A_def)
  have "\<bar>a' - (a + x)\<bar> \<le> \<bar>a + x\<bar> * eps"
    using fl_error [of p "a + x"] by (simp add: a'_def eps_def)
  also have "\<dots> \<le> A * eps"
    using eps by (intro mult_right_mono) (simp_all add: A_def)
  finally have first: "\<bar>a' - (a + x)\<bar> \<le> eps * A"
    by (simp add: mult.commute)
  have "\<bar>a'\<bar> \<le> (1 + eps) * \<bar>a + x\<bar>"
    using fl_abs_le [of p "a + x"] by (simp add: a'_def eps_def)
  also have "\<dots> \<le> (1 + eps) * A"
    using eps by (intro mult_left_mono) (simp_all add: A_def)
  finally have bound: "\<bar>a'\<bar> \<le> (1 + eps) * A" .
  have "\<bar>F - (a' + sum_list xs)\<bar> \<le> (c - 1) * (\<bar>a'\<bar> + B)"
    using Cons.IH [of a'] by (simp add: F_def c_def eps_def B_def)
  also have "\<dots> \<le> (c - 1) * ((1 + eps) * A + B)"
    using c bound by (intro mult_left_mono) simp_all
  finally have rest: "\<bar>F - (a' + sum_list xs)\<bar> \<le> (c - 1) * ((1 + eps) * A + B)" .
  have "\<bar>F - (a + x + sum_list xs)\<bar> \<le> \<bar>F - (a' + sum_list xs)\<bar> + \<bar>a' - (a + x)\<bar>"
    by simp
  also have "\<dots> \<le> (c - 1) * ((1 + eps) * A + B) + eps * A"
    using rest first by simp
  also have "\<dots> \<le> (c - 1) * ((1 + eps) * A + B) + eps * A + c * eps * B"
    using c eps B by simp
  also have "\<dots> = ((1 + eps) * c - 1) * (A + B)"
    by (simp add: algebra_simps)
  finally have "\<bar>F - (a + x + sum_list xs)\<bar> \<le> ((1 + eps) * c - 1) * (A + B)" .
  moreover have "float_add p a x = a'"
    by (simp add: a'_def float_add_def)
  then have "foldl (float_add p) a (x # xs) = F"
    by (simp add: F_def)
  ultimately show ?case
    by (simp add: c_def eps_def A_def B_def add.assoc)
qed

lemma py_sum_error:
  "\<bar>py_sum p xs - sum_list xs\<bar> \<le> ((1 + 1 / 2 ^ p) ^ length xs - 1) * sum_list (map abs xs)"
  using foldl_float_add_error [of p 0 xs] by (simp add: py_sum_def)

lemma float_of_length:
  "length xs < 2 ^ p \<Longrightarrow> float_of_int p (int (length xs)) = real (length xs)"
  using fl_of_int [of "int (length xs)" p] by (simp add: float_of_int_def flip: of_nat_less_iff)

lemma average_error:
  assumes "xs \<noteq> []" and "length xs < 2 ^ p"
  shows "\<exists>v. average p xs = Some v
    \<and> \<bar>v - arithmetic_mean xs\<bar>
        \<le> ((1 + 1 / 2 ^ p) ^ (length xs + 1) - 1) * arithmetic_mean (map abs xs)"
proof -
  define eps :: real where "eps = 1 / 2 ^ p"
  define n where "n = real (length xs)"
  define c where "c = (1 + eps) ^ length xs"
  define S where "S = py_sum p xs"
  define T where "T = sum_list xs"
  define A where "A = sum_list (map abs xs)"
  define v where "v = fl p (S / n)"
  have n: "0 < n" using assms(1) by (simp add: n_def)
  have eps: "0 \<le> eps" by (simp add: eps_def)
  have c: "1 \<le> c" unfolding c_def using eps by (intro one_le_power) simp
  have result: "average p xs = Some v"
    using assms by (simp add: average_def float_div_def float_of_length v_def S_def n_def)
  have TA: "\<bar>T\<bar> \<le> A"
    unfolding T_def A_def by (rule sum_list_abs)
  have ST: "\<bar>S - T\<bar> \<le> (c - 1) * A"
    using py_sum_error [of p xs] by (simp add: S_def T_def c_def eps_def A_def)
  have "\<bar>S\<bar> \<le> \<bar>S - T\<bar> + \<bar>T\<bar>"
    by simp
  also have "\<dots> \<le> (c - 1) * A + A"
    using ST TA by simp
  finally have S: "\<bar>S\<bar> \<le> c * A"
    by (simp add: algebra_simps)
  have "\<bar>v - S / n\<bar> \<le> \<bar>S / n\<bar> * eps"
    using fl_error [of p "S / n"] by (simp add: v_def eps_def)
  also have "\<dots> = eps * \<bar>S\<bar> / n"
    using n by simp
  also have "\<dots> \<le> eps * (c * A) / n"
    using S eps n by (intro divide_right_mono mult_left_mono) simp_all
  finally have first: "\<bar>v - S / n\<bar> \<le> eps * (c * A) / n" .
  have "\<bar>S / n - T / n\<bar> = \<bar>S - T\<bar> / n"
    using n by (simp add: diff_divide_distrib [symmetric])
  also have "\<dots> \<le> (c - 1) * A / n"
    using ST n by (intro divide_right_mono) simp_all
  finally have second: "\<bar>S / n - T / n\<bar> \<le> (c - 1) * A / n" .
  have "\<bar>v - T / n\<bar> \<le> \<bar>v - S / n\<bar> + \<bar>S / n - T / n\<bar>"
    by simp
  also have "\<dots> \<le> eps * (c * A) / n + (c - 1) * A / n"
    using first second by simp
  also have "\<dots> = ((1 + eps) * c - 1) * (A / n)"
    by (simp add: algebra_simps add_divide_distrib diff_divide_distrib)
  finally have "\<bar>v - T / n\<bar> \<le> ((1 + eps) * c - 1) * (A / n)" .
  then have "\<bar>v - arithmetic_mean xs\<bar>
      \<le> ((1 + 1 / 2 ^ p) ^ (length xs + 1) - 1) * arithmetic_mean (map abs xs)"
    by (simp add: arithmetic_mean_def T_def n_def c_def eps_def A_def)
  with result show ?thesis
    by blast
qed

lemma foldl_float_add_ints:
  "\<bar>a\<bar> + sum_list (map abs ns) < 2 ^ p \<Longrightarrow>
   foldl (float_add p) (of_int a) (map of_int ns) = of_int (a + sum_list ns)"
proof (induction ns arbitrary: a)
  case Nil
  then show ?case by simp
next
  case (Cons n ns)
  have nonneg: "0 \<le> sum_list (map abs ns)"
    by (induction ns) simp_all
  have small: "\<bar>a + n\<bar> < 2 ^ p"
    using Cons.prems nonneg by simp
  have "float_add p (of_int a) (of_int n) = of_int (a + n)"
    using fl_of_int [OF small] by (simp add: float_add_def)
  moreover have "\<bar>a + n\<bar> + sum_list (map abs ns) < 2 ^ p"
    using Cons.prems by simp
  ultimately show ?case
    using Cons.IH [of "a + n"] by (simp add: add.assoc)
qed

lemma py_sum_ints:
  "sum_list (map abs ns) < 2 ^ p \<Longrightarrow> py_sum p (map of_int ns) = of_int (sum_list ns)"
  using foldl_float_add_ints [of 0 ns p] by (simp add: py_sum_def)

lemma sum_list_of_int: "sum_list (map real_of_int ns) = of_int (sum_list ns)"
  by (induction ns) simp_all

lemma average_ints:
  assumes "ns \<noteq> []" and "length ns < 2 ^ p" and "sum_list (map abs ns) < 2 ^ p"
  shows "average p (map of_int ns) = Some (fl p (arithmetic_mean (map of_int ns)))"
    and "average_int p ns = Some (fl p (arithmetic_mean (map of_int ns)))"
proof -
  have "\<bar>sum_list ns\<bar> \<le> sum_list (map abs ns)"
    by (rule sum_list_abs)
  then have "\<bar>sum_list ns\<bar> < 2 ^ p"
    using assms(3) by simp
  then have total: "float_of_int p (sum_list ns) = of_int (sum_list ns)"
    by (simp add: float_of_int_def fl_of_int)
  have count: "float_of_int p (int (length ns)) = real (length ns)"
    using assms(2) by (rule float_of_length)
  show "average_int p ns = Some (fl p (arithmetic_mean (map of_int ns)))"
    using assms(1) total count
    by (simp add: average_int_def float_div_def arithmetic_mean_def sum_list_of_int)
  have "float_of_int p (int (length (map real_of_int ns))) = real (length ns)"
    using count by simp
  then show "average p (map of_int ns) = Some (fl p (arithmetic_mean (map of_int ns)))"
    using assms(1) py_sum_ints [OF assms(3)]
    by (simp add: average_def float_div_def arithmetic_mean_def sum_list_of_int)
qed

lemma integer_mean_exact:
  assumes "ns \<noteq> []" and "sum_list (map abs ns) < 2 ^ p" and "int (length ns) dvd sum_list ns"
  shows "fl p (arithmetic_mean (map of_int ns)) = arithmetic_mean (map of_int ns)"
proof -
  from assms(3) obtain m where m: "sum_list ns = int (length ns) * m"
    by (auto simp add: dvd_def)
  have pos: "0 < length ns" using assms(1) by simp
  then have mean: "arithmetic_mean (map of_int ns) = of_int m"
    by (simp add: arithmetic_mean_def sum_list_of_int m)
  have "1 \<le> int (length ns)"
    using assms(1) by (cases ns) simp_all
  then have "1 * \<bar>m\<bar> \<le> int (length ns) * \<bar>m\<bar>"
    by (intro mult_right_mono) simp_all
  then have "\<bar>m\<bar> \<le> int (length ns) * \<bar>m\<bar>"
    by simp
  also have "\<dots> = \<bar>sum_list ns\<bar>"
    by (simp add: m abs_mult)
  also have "\<dots> \<le> sum_list (map abs ns)"
    by (rule sum_list_abs)
  finally have "\<bar>m\<bar> < 2 ^ p"
    using assms(2) by simp
  then show ?thesis
    by (simp add: mean fl_of_int)
qed


lemma ilog2_upper:
  assumes "0 < y"
  shows "y < 2 powi (ilog2 y + 1)"
proof (cases "1 \<le> y")
  case True
  then have pos: "0 < \<lfloor>y\<rfloor>" by linarith
  let ?k = "bitlen \<lfloor>y\<rfloor>"
  have k: "0 \<le> ?k" by (rule bitlen_nonneg)
  have "\<lfloor>y\<rfloor> < 2 ^ nat ?k"
    using bitlen_bounds [OF pos] by simp
  then have "\<lfloor>y\<rfloor> + 1 \<le> 2 ^ nat ?k"
    by simp
  then have "real_of_int (\<lfloor>y\<rfloor> + 1) \<le> real_of_int (2 ^ nat ?k)"
    by (simp only: of_int_le_iff)
  then have "real_of_int \<lfloor>y\<rfloor> + 1 \<le> 2 ^ nat ?k"
    by simp
  moreover have "y < real_of_int \<lfloor>y\<rfloor> + 1"
    by linarith
  ultimately have "y < 2 ^ nat ?k"
    by linarith
  then show ?thesis
    using True k by (simp add: ilog2_def power_int_def)
next
  case False
  let ?c = "\<lceil>1 / y\<rceil>"
  from False assms have "1 < 1 / y" by simp
  then have pos: "0 < ?c - 1" by linarith
  let ?k = "bitlen (?c - 1)"
  have k: "1 \<le> ?k"
    using pos by (simp add: bitlen_alt_def)
  have "2 ^ nat (?k - 1) \<le> ?c - 1"
    using bitlen_bounds [OF pos] by simp
  then have "real_of_int (2 ^ nat (?k - 1)) \<le> real_of_int (?c - 1)"
    by (simp only: of_int_le_iff)
  then have "2 ^ nat (?k - 1) \<le> real_of_int ?c - 1"
    by simp
  moreover have "real_of_int ?c - 1 < 1 / y"
    by linarith
  ultimately have "2 ^ nat (?k - 1) < 1 / y"
    by linarith
  then have "y < inverse (2 ^ nat (?k - 1))"
    using assms by (simp add: field_simps)
  moreover have "2 powi (- ?k + 1) = inverse ((2::real) ^ nat (?k - 1))"
    using k power_int_minus [of "2::real" "?k - 1"] by (simp add: power_int_def)
  ultimately show ?thesis
    using False by (simp add: ilog2_def)
qed

lemma round_half_even_bounds:
  "\<lfloor>r\<rfloor> \<le> round_half_even r" "round_half_even r \<le> \<lceil>r\<rceil>"
  unfolding round_half_even_def Let_def by (auto; linarith)+

lemma fl_representable:
  "\<exists>m e. fl p x = of_int m * 2 powi e \<and> \<bar>m\<bar> \<le> 2 ^ p"
proof (cases "x = 0")
  case True
  then have "fl p x = of_int 0 * 2 powi 0 \<and> \<bar>0::int\<bar> \<le> 2 ^ p"
    by (simp add: fl_def)
  then show ?thesis by blast
next
  case False
  let ?e = "ilog2 \<bar>x\<bar> - int p + 1"
  let ?u = "(2::real) powi ?e"
  let ?m = "round_half_even (x / ?u)"
  have u: "0 < ?u" by simp
  have "\<bar>x\<bar> < 2 powi (ilog2 \<bar>x\<bar> + 1)"
    using False by (intro ilog2_upper) simp
  also have "\<dots> = 2 ^ p * ?u"
    by (simp add: power_int_add power_int_diff)
  finally have "\<bar>x\<bar> / ?u < 2 ^ p"
    using u by (simp add: field_simps)
  moreover have "\<bar>x / ?u\<bar> = \<bar>x\<bar> / ?u"
    using u by simp
  moreover have "x / ?u \<le> \<bar>x / ?u\<bar>" and "- \<bar>x / ?u\<bar> \<le> x / ?u"
    by (rule abs_ge_self, simp add: abs_le_D2 minus_le_iff)
  ultimately have "x / ?u < 2 ^ p" and "- (2 ^ p) < x / ?u"
    by linarith+
  then have "x / ?u < real_of_int (2 ^ p)" and "- real_of_int (2 ^ p) < x / ?u"
    by simp_all
  then have "\<lceil>x / ?u\<rceil> \<le> 2 ^ p" and "- (2 ^ p) \<le> \<lfloor>x / ?u\<rfloor>"
    by (simp_all add: ceiling_le_iff le_floor_iff del: of_int_power)
  then have "\<bar>?m\<bar> \<le> 2 ^ p"
    using round_half_even_bounds [of "x / ?u"] by linarith
  moreover have "fl p x = of_int ?m * ?u"
    using False by (simp add: fl_def Let_def)
  ultimately show ?thesis by blast
qed

subsection \<open>Averages\<close>

text \<open>
  C7, as the script computes it. The average of an empty reading list is \<^verbatim>\<open>None\<close>. The
  average of a non-empty list (of fewer than \<open>2 ^ p\<close> entries) is the arithmetic mean of its
  entries computed in floats of \<open>p\<close> significant bits: it is such a float, and it differs from
  the exact arithmetic mean by at most \<open>(1 + 1 / 2 ^ p) ^ (n + 1) - 1\<close> times the mean of the
  magnitudes of the \<open>n\<close> entries. When the entries are integers whose magnitudes sum to less
  than \<open>2 ^ p\<close>, the sum is exact and the average is the exact mean rounded once, within
  \<open>1 / 2 ^ p\<close> of it relatively; it is the exact mean when that is an integer. So the list
  10, 20, 30 gives 20, as floats and as integer moisture readings, for every \<open>p \<ge> 6\<close>.
\<close>

theorem average_is_rounded_mean:
  "average p [] = None \<and> average_int p [] = None
   \<and> (readings \<noteq> [] \<and> length readings < 2 ^ p \<longrightarrow>
        (\<exists>v m e. average p readings = Some v
           \<and> v = of_int m * 2 powi e \<and> \<bar>m\<bar> \<le> 2 ^ p
           \<and> \<bar>v - arithmetic_mean readings\<bar>
               \<le> ((1 + 1 / 2 ^ p) ^ (length readings + 1) - 1)
                   * arithmetic_mean (map abs readings)))
   \<and> (ns \<noteq> [] \<and> length ns < 2 ^ p \<and> sum_list (map abs ns) < 2 ^ p \<longrightarrow>
        average_int p ns = Some (fl p (arithmetic_mean (map of_int ns)))
        \<and> average p (map of_int ns) = Some (fl p (arithmetic_mean (map of_int ns)))
        \<and> \<bar>fl p (arithmetic_mean (map of_int ns)) - arithmetic_mean (map of_int ns)\<bar>
            \<le> \<bar>arithmetic_mean (map of_int ns)\<bar> / 2 ^ p
        \<and> (int (length ns) dvd sum_list ns \<longrightarrow>
             average_int p ns = Some (arithmetic_mean (map of_int ns))
             \<and> average p (map of_int ns) = Some (arithmetic_mean (map of_int ns))))
   \<and> (6 \<le> p \<longrightarrow> average p [10, 20, 30] = Some 20 \<and> average_int p [10, 20, 30] = Some 20)"
proof (intro conjI impI)
  show "average p [] = None" "average_int p [] = None"
    by (simp_all add: average_def average_int_def)
next
  assume "readings \<noteq> [] \<and> length readings < 2 ^ p"
  then obtain v where v: "average p readings = Some v"
    and near: "\<bar>v - arithmetic_mean readings\<bar>
        \<le> ((1 + 1 / 2 ^ p) ^ (length readings + 1) - 1) * arithmetic_mean (map abs readings)"
    using average_error [of readings p] by blast
  from v have "v = fl p (py_sum p readings / float_of_int p (int (length readings)))"
    by (simp add: average_def float_div_def split: if_splits)
  then obtain m e where "v = of_int m * 2 powi e" and "\<bar>m\<bar> \<le> 2 ^ p"
    using fl_representable [of p "py_sum p readings / float_of_int p (int (length readings))"]
    by auto
  with v near show "\<exists>v m e. average p readings = Some v
      \<and> v = of_int m * 2 powi e \<and> \<bar>m\<bar> \<le> 2 ^ p
      \<and> \<bar>v - arithmetic_mean readings\<bar>
          \<le> ((1 + 1 / 2 ^ p) ^ (length readings + 1) - 1) * arithmetic_mean (map abs readings)"
    by blast
next
  assume small: "ns \<noteq> [] \<and> length ns < 2 ^ p \<and> sum_list (map abs ns) < 2 ^ p"
  then show rounded: "average_int p ns = Some (fl p (arithmetic_mean (map of_int ns)))"
    "average p (map of_int ns) = Some (fl p (arithmetic_mean (map of_int ns)))"
    by (simp_all add: average_ints)
  show "\<bar>fl p (arithmetic_mean (map of_int ns)) - arithmetic_mean (map of_int ns)\<bar>
      \<le> \<bar>arithmetic_mean (map of_int ns)\<bar> / 2 ^ p"
    by (rule fl_error)
  assume "int (length ns) dvd sum_list ns"
  then have "fl p (arithmetic_mean (map of_int ns)) = arithmetic_mean (map of_int ns)"
    using small by (simp add: integer_mean_exact)
  then show "average_int p ns = Some (arithmetic_mean (map of_int ns))"
    "average p (map of_int ns) = Some (arithmetic_mean (map of_int ns))"
    using rounded by simp_all
next
  assume "6 \<le> p"
  then have "(2::nat) ^ 6 \<le> 2 ^ p" "(2::int) ^ 6 \<le> 2 ^ p"
    by (rule power_increasing, simp)+
  then have small: "length [10, 20, 30 :: int] < 2 ^ p" "sum_list (map abs [10, 20, 30 :: int]) < 2 ^ p"
    by simp_all
  have mean: "arithmetic_mean (map of_int [10, 20, 30]) = 20"
    by (simp add: arithmetic_mean_def)
  have "fl p (arithmetic_mean (map of_int [10, 20, 30])) = arithmetic_mean (map of_int [10, 20, 30])"
    using small by (intro integer_mean_exact) simp_all
  then have exact: "fl p 20 = 20"
    by (simp only: mean)
  have "average_int p [10, 20, 30] = Some (fl p (arithmetic_mean (map of_int [10, 20, 30])))"
    using small by (intro average_ints(2)) simp_all
  then show "average_int p [10, 20, 30] = Some 20"
    using exact by (simp only: mean)
  have "average p (map of_int [10, 20, 30]) = Some (fl p (arithmetic_mean (map of_int [10, 20, 30])))"
    using small by (intro average_ints(1)) simp_all
  then have "average p (map of_int [10, 20, 30]) = Some 20"
    using exact by (simp only: mean)
  then show "average p [10, 20, 30] = Some 20"
    by simp
qed

theorem average_is_rounded_mean_witness:
  "[50, 50, 51 :: real] \<noteq> [] \<and> length [50, 50, 51 :: real] < 2 ^ 24
   \<and> average 24 [50, 50, 51] \<noteq> None
   \<and> \<bar>the (average 24 [50, 50, 51]) - arithmetic_mean [50, 50, 51]\<bar>
       \<le> ((1 + 1 / 2 ^ 24) ^ (length [50, 50, 51 :: real] + 1) - 1)
           * arithmetic_mean (map abs [50, 50, 51])
   \<and> [20, 21 :: int] \<noteq> [] \<and> sum_list (map abs [20, 21 :: int]) < 2 ^ 24
   \<and> average_int 24 [20, 21] = Some (fl 24 (arithmetic_mean (map of_int [20, 21])))
   \<and> average_int 24 [10, 20, 30] = Some 20"
proof -
  note at_example = average_is_rounded_mean [of 24 "[50, 50, 51]" "[20, 21]"]
  have floats: "[50, 50, 51 :: real] \<noteq> [] \<and> length [50, 50, 51 :: real] < 2 ^ 24"
    by simp
  have ints: "[20, 21 :: int] \<noteq> [] \<and> length [20, 21 :: int] < 2 ^ 24
      \<and> sum_list (map abs [20, 21 :: int]) < 2 ^ 24"
    by simp
  from at_example floats obtain v where "average 24 [50, 50, 51] = Some v"
    and "\<bar>v - arithmetic_mean [50, 50, 51]\<bar>
        \<le> ((1 + 1 / 2 ^ 24) ^ (length [50, 50, 51 :: real] + 1) - 1)
            * arithmetic_mean (map abs [50, 50, 51])"
    by blast
  then have first: "average 24 [50, 50, 51] \<noteq> None"
    "\<bar>the (average 24 [50, 50, 51]) - arithmetic_mean [50, 50, 51]\<bar>
       \<le> ((1 + 1 / 2 ^ 24) ^ (length [50, 50, 51 :: real] + 1) - 1)
           * arithmetic_mean (map abs [50, 50, 51])"
    by simp_all
  have second: "average_int 24 [20, 21] = Some (fl 24 (arithmetic_mean (map of_int [20, 21])))"
    using at_example ints by blast
  have "(6::nat) \<le> 24"
    by simp
  then have third: "average_int 24 [10, 20, 30] = Some 20"
    using at_example by blast
  show ?thesis
    using floats ints first second third by blast
qed

text \<open>
  C7 as stated fails: the average is a float and the arithmetic mean need not be one. For
  the list 50, 50, 51 the mean is 151/3; with 53 significant bits the script computes
  \<open>7083786913884843 / 2 ^ 47\<close> (printed as 50.333333333333336), with 24 bits
  \<open>13194581 / 2 ^ 18\<close>.
\<close>

theorem average_counterexample:
  "arithmetic_mean [50, 50, 51] = 151 / 3
   \<and> average 53 [50, 50, 51] = Some (7083786913884843 / 140737488355328)
   \<and> average 24 [50, 50, 51] = Some (13194581 / 262144)
   \<and> average 53 [50, 50, 51] \<noteq> Some (arithmetic_mean [50, 50, 51])
   \<and> average 24 [50, 50, 51] \<noteq> Some (arithmetic_mean [50, 50, 51])
   \<and> average_int 53 [50, 50, 51] \<noteq> Some (arithmetic_mean [50, 50, 51])
   \<and> average_int 24 [50, 50, 51] \<noteq> Some (arithmetic_mean [50, 50, 51])"
  by code_simp

subsection \<open>Failure counters\<close>

lemma takeWhile_snoc_all:
  "takeWhile P (xs @ [x]) = (if \<forall>y\<in>set xs. P y then xs @ takeWhile P [x] else takeWhile P xs)"
  by (induction xs) auto

lemma trailing_failures_Cons:
  "trailing_failures (r # rs) =
     (if \<forall>x\<in>set rs. is_failure x then (if is_failure r then Suc (length rs) else length rs)
      else trailing_failures rs)"
  by (simp add: trailing_failures_def takeWhile_snoc_all)

lemma safe_sensor_read_success:
  "safe_sensor_read name (Returns v) s =
     Inr (v, s\<lparr>failed_sensor_reads := (failed_sensor_reads s)(name \<mapsto> 0)\<rparr>)"
  by (simp add: safe_sensor_read_def)

lemma safe_sensor_read_failure:
  "failed_sensor_reads s name = Some c \<Longrightarrow>
   safe_sensor_read name Raises s =
     Inr (None, s\<lparr>failed_sensor_reads := (failed_sensor_reads s)(name \<mapsto> c + 1)\<rparr>)"
  by (simp add: safe_sensor_read_def lookup_def bind_result_def)

lemma is_healthy_counter:
  "failed_sensor_reads s name = Some c \<Longrightarrow> is_healthy s name = Inr (c < 5)"
  by (simp add: is_healthy_def lookup_def bind_result_def)

lemma safe_sensor_reads_counter:
  "failed_sensor_reads s name = Some c \<Longrightarrow>
   \<exists>s'. safe_sensor_reads name rs s = Inr s'
      \<and> failed_sensor_reads s' name =
          Some (if \<forall>r\<in>set rs. is_failure r then c + length rs else trailing_failures rs)"
proof (induction rs arbitrary: s c)
  case Nil
  then show ?case by simp
next
  case (Cons r rs)
  show ?case
  proof (cases r)
    case Raises
    let ?s1 = "s\<lparr>failed_sensor_reads := (failed_sensor_reads s)(name \<mapsto> c + 1)\<rparr>"
    have step: "safe_sensor_read name r s = Inr (None, ?s1)"
      using Cons.prems Raises by (simp add: safe_sensor_read_failure)
    have "failed_sensor_reads ?s1 name = Some (c + 1)" by simp
    from Cons.IH [OF this] obtain s' where
      "safe_sensor_reads name rs ?s1 = Inr s'"
      "failed_sensor_reads s' name =
         Some (if \<forall>r\<in>set rs. is_failure r then c + 1 + length rs else trailing_failures rs)"
      by blast
    then show ?thesis
      using step Raises by (simp add: bind_result_def trailing_failures_Cons)
  next
    case (Returns v)
    let ?s1 = "s\<lparr>failed_sensor_reads := (failed_sensor_reads s)(name \<mapsto> 0)\<rparr>"
    have step: "safe_sensor_read name r s = Inr (v, ?s1)"
      using Returns by (simp add: safe_sensor_read_success)
    have "failed_sensor_reads ?s1 name = Some 0" by simp
    from Cons.IH [OF this] obtain s' where
      "safe_sensor_reads name rs ?s1 = Inr s'"
      "failed_sensor_reads s' name =
         Some (if \<forall>r\<in>set rs. is_failure r then 0 + length rs else trailing_failures rs)"
      by blast
    then show ?thesis
      using step Returns by (simp add: bind_result_def trailing_failures_Cons)
  qed
qed

text \<open>
  C2. For a sensor name that has a counter (the dictionary \<^verbatim>\<open>failed_sensor_reads\<close> has the
  key; its value is \<open>c\<close>): a successful read returns the value read and sets the counter to
  0; a failed read returns \<^verbatim>\<open>None\<close> and adds 1 to the counter; the counter test
  \<^verbatim>\<open>failed_sensor_reads[name] < 5\<close> holds exactly when the counter is below 5; after any
  sequence of read outcomes the counter is the number of failures since the last success
  (added to \<open>c\<close> when there was no success); so after \<open>N \<ge> 5\<close> consecutive failures the
  counter is \<open>c + N\<close> and the test fails, and a single success after that sets the counter
  to 0 and the test holds again.
\<close>

theorem failure_counter:
  assumes "failed_sensor_reads s name = Some c"
  shows "safe_sensor_read name (Returns v) s =
           Inr (v, s\<lparr>failed_sensor_reads := (failed_sensor_reads s)(name \<mapsto> 0)\<rparr>)
    \<and> safe_sensor_read name Raises s =
           Inr (None :: 'a option, s\<lparr>failed_sensor_reads := (failed_sensor_reads s)(name \<mapsto> c + 1)\<rparr>)
    \<and> is_healthy s name = Inr (c < 5)
    \<and> (\<exists>s'. safe_sensor_reads name (rs :: 'a option outcome list) s = Inr s'
          \<and> failed_sensor_reads s' name =
              Some (if \<forall>r\<in>set rs. is_failure r then c + length rs else trailing_failures rs))
    \<and> (5 \<le> N \<longrightarrow>
         (\<exists>s'. safe_sensor_reads name (replicate N (Raises :: 'a option outcome)) s = Inr s'
            \<and> failed_sensor_reads s' name = Some (c + N)
            \<and> is_healthy s' name = Inr False
            \<and> (\<exists>s''. safe_sensor_read name (Returns v) s' = Inr (v, s'')
                  \<and> failed_sensor_reads s'' name = Some 0
                  \<and> is_healthy s'' name = Inr True)))"
proof -
  have ok: "safe_sensor_read name (Returns v) s =
      Inr (v, s\<lparr>failed_sensor_reads := (failed_sensor_reads s)(name \<mapsto> 0)\<rparr>)"
    by (rule safe_sensor_read_success)
  have bad: "safe_sensor_read name Raises s =
      Inr (None :: 'a option, s\<lparr>failed_sensor_reads := (failed_sensor_reads s)(name \<mapsto> c + 1)\<rparr>)"
    using assms by (rule safe_sensor_read_failure)
  have test: "is_healthy s name = Inr (c < 5)"
    using assms by (rule is_healthy_counter)
  have any: "\<exists>s'. safe_sensor_reads name rs s = Inr s'
      \<and> failed_sensor_reads s' name =
          Some (if \<forall>r\<in>set rs. is_failure r then c + length rs else trailing_failures rs)"
    using assms by (rule safe_sensor_reads_counter)
  have many: "\<exists>s'. safe_sensor_reads name (replicate N (Raises :: 'a option outcome)) s = Inr s'
      \<and> failed_sensor_reads s' name = Some (c + N)
      \<and> is_healthy s' name = Inr False
      \<and> (\<exists>s''. safe_sensor_read name (Returns v) s' = Inr (v, s'')
            \<and> failed_sensor_reads s'' name = Some 0
            \<and> is_healthy s'' name = Inr True)" if "5 \<le> N"
  proof -
    from safe_sensor_reads_counter [OF assms, of "replicate N (Raises :: 'a option outcome)"]
    obtain s' where run: "safe_sensor_reads name (replicate N (Raises :: 'a option outcome)) s = Inr s'"
      and cnt: "failed_sensor_reads s' name = Some (c + N)"
      by auto
    have unhealthy: "is_healthy s' name = Inr False"
      using that by (simp add: is_healthy_counter [OF cnt])
    let ?s'' = "s'\<lparr>failed_sensor_reads := (failed_sensor_reads s')(name \<mapsto> 0)\<rparr>"
    have "safe_sensor_read name (Returns v) s' = Inr (v, ?s'')"
      by (rule safe_sensor_read_success)
    moreover have "failed_sensor_reads ?s'' name = Some 0" by simp
    moreover from this have "is_healthy ?s'' name = Inr True"
      by (simp add: is_healthy_counter)
    ultimately show ?thesis
      using run cnt unhealthy by blast
  qed
  show ?thesis
    using ok bad test any many by blast
qed

theorem failure_counter_witness:
  "safe_sensor_read ''dht11'' (Returns (Some (7::nat))) online_state =
     Inr (Some 7, online_state\<lparr>failed_sensor_reads := (failed_sensor_reads online_state)(''dht11'' \<mapsto> 0)\<rparr>)
   \<and> safe_sensor_read ''dht11'' Raises online_state =
     Inr (None :: nat option,
          online_state\<lparr>failed_sensor_reads := (failed_sensor_reads online_state)(''dht11'' \<mapsto> 1)\<rparr>)
   \<and> is_healthy online_state ''dht11'' = Inr True
   \<and> (\<exists>s'. safe_sensor_reads ''dht11'' (replicate 6 (Raises :: nat option outcome)) online_state = Inr s'
         \<and> failed_sensor_reads s' ''dht11'' = Some 6
         \<and> is_healthy s' ''dht11'' = Inr False
         \<and> (\<exists>s''. safe_sensor_read ''dht11'' (Returns (Some (7::nat))) s' = Inr (Some 7, s'')
               \<and> failed_sensor_reads s'' ''dht11'' = Some 0
               \<and> is_healthy s'' ''dht11'' = Inr True))"
proof -
  have h: "failed_sensor_reads online_state ''dht11'' = Some 0"
    by (simp add: online_state_def initial_state_def)
  show ?thesis
    using failure_counter [OF h, of "Some (7::nat)" "[]" 6] by auto
qed

subsection \<open>Publishing fails closed\<close>

text \<open>
  C6. \<^verbatim>\<open>safe_publish\<close> always returns a boolean (it cannot raise). When the session is not
  up (\<^verbatim>\<open>is_mqtt_connected()\<close> is false) it returns \<^verbatim>\<open>False\<close> and changes nothing, without a
  call of the client. When the session is up and the client's publish raises, it returns
  \<^verbatim>\<open>False\<close> and the \<^verbatim>\<open>mqtt\<close> flag is false afterwards. When the session is up and the publish
  returns, it returns \<^verbatim>\<open>True\<close> and leaves the flags alone. So the result is \<^verbatim>\<open>True\<close> exactly
  when the session is up and the client's publish succeeds.
\<close>

theorem safe_publish_fails_closed:
  "(\<not> is_mqtt_connected s \<longrightarrow> safe_publish w topic v retain s = (False, s))
   \<and> (is_mqtt_connected s \<and> \<not> mqtt_returns w (calls s) \<longrightarrow>
        (\<exists>s'. safe_publish w topic v retain s = (False, s')
            \<and> \<not> mqtt (connection_status s') \<and> \<not> is_mqtt_connected s'
            \<and> mqtt_log s' = mqtt_log s @ [Publish topic v retain]))
   \<and> (is_mqtt_connected s \<and> mqtt_returns w (calls s) \<longrightarrow>
        (\<exists>s'. safe_publish w topic v retain s = (True, s')
            \<and> connection_status s' = connection_status s
            \<and> mqtt_log s' = mqtt_log s @ [Publish topic v retain]))
   \<and> (fst (safe_publish w topic v retain s) \<longleftrightarrow> is_mqtt_connected s \<and> mqtt_returns w (calls s))"
  by (simp add: safe_publish_def mqtt_invoke_def set_mqtt_def is_mqtt_connected_def)

theorem safe_publish_fails_closed_witness:
  "safe_publish fair_world ''t'' (Text ''x'') False initial_state = (False, initial_state)
   \<and> (\<exists>s'. safe_publish (fair_world\<lparr>mqtt_returns := (\<lambda>n. False)\<rparr>) ''t'' (Text ''x'') False online_state
              = (False, s')
          \<and> \<not> mqtt (connection_status s') \<and> \<not> is_mqtt_connected s'
          \<and> mqtt_log s' = mqtt_log online_state @ [Publish ''t'' (Text ''x'') False])
   \<and> (\<exists>s'. safe_publish fair_world ''t'' (Text ''x'') False online_state = (True, s')
          \<and> connection_status s' = connection_status online_state
          \<and> mqtt_log s' = mqtt_log online_state @ [Publish ''t'' (Text ''x'') False])"
proof -
  have down: "\<not> is_mqtt_connected initial_state"
    by (simp add: is_mqtt_connected_def initial_state_def)
  have up: "is_mqtt_connected online_state"
    by (simp add: is_mqtt_connected_def online_state_def initial_state_def)
  have raises: "\<not> mqtt_returns (fair_world\<lparr>mqtt_returns := (\<lambda>n. False)\<rparr>) (calls online_state)"
    by simp
  have returns: "mqtt_returns fair_world (calls online_state)"
    by (simp add: fair_world_def)
  show ?thesis
    using down up raises returns
      safe_publish_fails_closed [of initial_state fair_world "''t''" "Text ''x''" False]
      safe_publish_fails_closed [of online_state "fair_world\<lparr>mqtt_returns := (\<lambda>n. False)\<rparr>"
        "''t''" "Text ''x''" False]
      safe_publish_fails_closed [of online_state fair_world "''t''" "Text ''x''" False]
    by blast
qed

subsection \<open>The order of the status tests\<close>

lemma device_status_chain:
  assumes "working_sensors s = Inr healthy" and "total_sensors s = Inr known"
  shows "device_status w s =
     Inr (if \<not> wifi (connection_status s) then (''WiFi Disconnected'', s)
          else if \<not> mqtt (connection_status s) then (''MQTT Disconnected'', s)
          else if healthy = 0 then (''All Sensors Failed'', s)
          else if healthy < known
            then (''Partial ('' @ str_nat healthy @ ''/'' @ str_nat known @ '' sensors)'', s)
          else if time_now w (calls s) - last_successful_publish (connection_status s) > 300
            then (''Publish Timeout'', advance s)
          else (''Online'', advance s))"
  using assms by (simp add: device_status_def bind_result_def)

text \<open>
  C1. Let \<open>healthy\<close> be the count \<^verbatim>\<open>working_sensors\<close> and \<open>known\<close> the count \<^verbatim>\<open>total_sensors\<close>
  of a state. The status is decided in this order: link flag down gives
  "WiFi Disconnected"; otherwise session flag down gives "MQTT Disconnected"; otherwise
  \<open>healthy = 0\<close> gives "All Sensors Failed"; otherwise \<open>healthy < known\<close> gives
  "Partial (healthy/known sensors)"; otherwise more than 300 seconds since the last
  successful publish gives "Publish Timeout"; otherwise "Online". In particular, with the
  link down and no healthy sensor the status is "WiFi Disconnected", not
  "All Sensors Failed".
\<close>

theorem status_priority:
  assumes "working_sensors s = Inr healthy" and "total_sensors s = Inr known"
  shows
    "(\<not> wifi (connection_status s) \<longrightarrow> status_of w s = Inr ''WiFi Disconnected'')
     \<and> (wifi (connection_status s) \<and> \<not> mqtt (connection_status s) \<longrightarrow>
          status_of w s = Inr ''MQTT Disconnected'')
     \<and> (wifi (connection_status s) \<and> mqtt (connection_status s) \<and> healthy = 0 \<longrightarrow>
          status_of w s = Inr ''All Sensors Failed'')
     \<and> (wifi (connection_status s) \<and> mqtt (connection_status s) \<and> healthy \<noteq> 0
          \<and> healthy < known \<longrightarrow>
          status_of w s = Inr (''Partial ('' @ str_nat healthy @ ''/'' @ str_nat known @ '' sensors)''))
     \<and> (wifi (connection_status s) \<and> mqtt (connection_status s) \<and> healthy \<noteq> 0
          \<and> \<not> healthy < known
          \<and> time_now w (calls s) - last_successful_publish (connection_status s) > 300 \<longrightarrow>
          status_of w s = Inr ''Publish Timeout'')
     \<and> (wifi (connection_status s) \<and> mqtt (connection_status s) \<and> healthy \<noteq> 0
          \<and> \<not> healthy < known
          \<and> \<not> time_now w (calls s) - last_successful_publish (connection_status s) > 300 \<longrightarrow>
          status_of w s = Inr ''Online'')
     \<and> (\<not> wifi (connection_status s) \<and> healthy = 0 \<longrightarrow>
          status_of w s = Inr ''WiFi Disconnected''
          \<and> status_of w s \<noteq> Inr ''All Sensors Failed'')"
  by (simp add: status_of_def device_status_chain [OF assms] bind_result_def)

lemmas count_defs =
  working_sensors_def total_sensors_def sensor_working_def is_healthy_def lookup_def
  bind_result_def

lemmas example_state_defs =
  online_state_def all_failed_state_def dht_failed_state_def initial_state_def

theorem status_priority_witness:
  "status_of fair_world (set_wifi False all_failed_state) = Inr ''WiFi Disconnected''
   \<and> status_of fair_world (set_wifi False all_failed_state) \<noteq> Inr ''All Sensors Failed''
   \<and> status_of fair_world (set_mqtt False online_state) = Inr ''MQTT Disconnected''
   \<and> status_of fair_world all_failed_state = Inr ''All Sensors Failed''
   \<and> status_of fair_world dht_failed_state = Inr ''Partial (2/3 sensors)''
   \<and> status_of (fair_world\<lparr>time_now := (\<lambda>n. 1300)\<rparr>) online_state = Inr ''Publish Timeout''
   \<and> status_of fair_world online_state = Inr ''Online''"
proof -
  have a: "working_sensors (set_wifi False all_failed_state) = Inr 0"
    "total_sensors (set_wifi False all_failed_state) = Inr 3"
    "\<not> wifi (connection_status (set_wifi False all_failed_state))"
    by (simp_all add: count_defs example_state_defs set_wifi_def)
  have b: "working_sensors (set_mqtt False online_state) = Inr 3"
    "total_sensors (set_mqtt False online_state) = Inr 3"
    "wifi (connection_status (set_mqtt False online_state))"
    "\<not> mqtt (connection_status (set_mqtt False online_state))"
    by (simp_all add: count_defs example_state_defs set_mqtt_def)
  have c: "working_sensors all_failed_state = Inr 0"
    "total_sensors all_failed_state = Inr 3"
    "wifi (connection_status all_failed_state)"
    "mqtt (connection_status all_failed_state)"
    by (simp_all add: count_defs example_state_defs)
  have d: "working_sensors dht_failed_state = Inr 2"
    "total_sensors dht_failed_state = Inr 3"
    "wifi (connection_status dht_failed_state)"
    "mqtt (connection_status dht_failed_state)"
    by (simp_all add: count_defs example_state_defs)
  have e: "working_sensors online_state = Inr 3"
    "total_sensors online_state = Inr 3"
    "wifi (connection_status online_state)"
    "mqtt (connection_status online_state)"
    "calls online_state = 0"
    "last_successful_publish (connection_status online_state) = 900"
    by (simp_all add: count_defs example_state_defs)
  have rendered: "''Partial ('' @ str_nat 2 @ ''/'' @ str_nat 3 @ '' sensors)'' = ''Partial (2/3 sensors)''"
    by (simp add: str_nat.simps digit_char_def)
  show ?thesis
    using status_priority [OF a(1,2), of fair_world] a(3)
      status_priority [OF b(1,2), of fair_world] b(3,4)
      status_priority [OF c(1,2), of fair_world] c(3,4)
      status_priority [OF d(1,2), of fair_world] d(3,4)
      status_priority [OF e(1,2), of "fair_world\<lparr>time_now := (\<lambda>n. 1300)\<rparr>"]
      status_priority [OF e(1,2), of fair_world] e(3,4,5,6) rendered
    by (simp add: fair_world_def)
qed

subsection \<open>Publish attempts within one cycle\<close>

lemma safe_publish_disconnected:
  "\<not> is_mqtt_connected s \<Longrightarrow> safe_publish w topic v retain s = (False, s)"
  by (simp add: safe_publish_def)

lemma safe_publish_returns:
  assumes "is_mqtt_connected s" and "mqtt_returns w (calls s)"
  shows "safe_publish w topic v retain s =
           (True, s\<lparr>calls := Suc (calls s), mqtt_log := mqtt_log s @ [Publish topic v retain]\<rparr>)"
  using assms by (simp add: safe_publish_def mqtt_invoke_def)

lemma safe_publish_raises:
  assumes "is_mqtt_connected s" and "\<not> mqtt_returns w (calls s)"
  shows "safe_publish w topic v retain s =
           (False, set_mqtt False
              (s\<lparr>calls := Suc (calls s), mqtt_log := mqtt_log s @ [Publish topic v retain]\<rparr>))"
  using assms by (simp add: safe_publish_def mqtt_invoke_def)

lemma publish_each_disconnected:
  "\<not> is_mqtt_connected s \<Longrightarrow> publish_each w sensors_data n s = (n, s)"
  by (induction w sensors_data n s rule: publish_each.induct)
     (simp_all add: safe_publish_disconnected)

lemma publish_each_log:
  "is_mqtt_connected s \<Longrightarrow>
   mqtt_log (snd (publish_each w sensors_data n s)) =
     mqtt_log s @ attempted_publishes w (calls s) sensors_data"
proof (induction w sensors_data n s rule: publish_each.induct)
  case (1 w published_count s)
  then show ?case by simp
next
  case (2 w sensor_type sensors_data published_count s)
  then show ?case by simp
next
  case (3 w sensor_type v sensors_data published_count s)
  show ?case
  proof (cases "mqtt_returns w (calls s)")
    case True
    let ?s1 = "s\<lparr>calls := Suc (calls s),
                  mqtt_log := mqtt_log s @ [Publish (state_topic sensor_type) (Number v) True]\<rparr>"
    have step: "safe_publish w (state_topic sensor_type) (Number v) True s = (True, ?s1)"
      using "3.prems" True by (rule safe_publish_returns)
    have up: "is_mqtt_connected ?s1"
      using "3.prems" by (simp add: is_mqtt_connected_def)
    have "mqtt_log (snd (publish_each w sensors_data (published_count + 1) ?s1)) =
        mqtt_log ?s1 @ attempted_publishes w (calls ?s1) sensors_data"
      using "3.IH" [of "(True, ?s1)" True ?s1] step up by simp
    then show ?thesis
      using step True by simp
  next
    case False
    let ?s1 = "set_mqtt False (s\<lparr>calls := Suc (calls s),
                  mqtt_log := mqtt_log s @ [Publish (state_topic sensor_type) (Number v) True]\<rparr>)"
    have step: "safe_publish w (state_topic sensor_type) (Number v) True s = (False, ?s1)"
      using "3.prems" False by (rule safe_publish_raises)
    have down: "\<not> is_mqtt_connected ?s1"
      by (simp add: is_mqtt_connected_def set_mqtt_def)
    show ?thesis
      using step False publish_each_disconnected [OF down, of w sensors_data published_count]
      by (simp add: set_mqtt_def)
  qed
qed

text \<open>
  C5, as the script behaves. The loop of \<^verbatim>\<open>publish_sensor_data\<close> calls \<^verbatim>\<open>safe_publish\<close> for
  every quantity that is not \<^verbatim>\<open>None\<close>, but \<^verbatim>\<open>safe_publish\<close> reaches the MQTT client only
  while the session is marked up, and a publish that raises marks it down. So, starting
  with the session up, the publishes attempted on the client are those of the quantities
  that are not \<^verbatim>\<open>None\<close>, in order, up to and including the first one that raises; the
  quantities after it are not attempted. Starting with the session down, nothing is
  attempted and the count is 0.
\<close>

theorem publish_attempts_until_first_failure:
  "(is_mqtt_connected s \<longrightarrow>
      mqtt_log (snd (publish_sensor_data w temp hum lux moisture s)) =
        mqtt_log s @ attempted_publishes w (calls s)
          [(''temperature'', temp), (''humidity'', hum), (''lux'', lux),
           (''soil_moisture'', moisture)])
   \<and> (\<not> is_mqtt_connected s \<longrightarrow> publish_sensor_data w temp hum lux moisture s = (0, s))"
  by (simp add: publish_sensor_data_def publish_each_log)

theorem publish_attempts_until_first_failure_witness:
  "mqtt_log (snd (publish_sensor_data fair_world (Some 21) None (Some 300) (Some 50) online_state)) =
     [Publish (state_topic ''temperature'') (Number 21) True,
      Publish (state_topic ''lux'') (Number 300) True,
      Publish (state_topic ''soil_moisture'') (Number 50) True]
   \<and> publish_sensor_data fair_world (Some 21) None (Some 300) (Some 50) initial_state
       = (0, initial_state)"
proof -
  have up: "is_mqtt_connected online_state"
    by (simp add: is_mqtt_connected_def online_state_def initial_state_def)
  have down: "\<not> is_mqtt_connected initial_state"
    by (simp add: is_mqtt_connected_def initial_state_def)
  have empty: "mqtt_log online_state = []" "calls online_state = 0"
    by (simp_all add: online_state_def initial_state_def)
  show ?thesis
    using up down empty
      publish_attempts_until_first_failure
        [of online_state fair_world "Some 21" None "Some 300" "Some 50"]
      publish_attempts_until_first_failure
        [of initial_state fair_world "Some 21" None "Some 300" "Some 50"]
    by (simp add: fair_world_def)
qed

text \<open>
  The claim as written fails: with the session up and four values to publish, a first
  publish that raises is the only call made on the client, although every later call would
  have returned.
\<close>

theorem publish_attempts_counterexample:
  "is_mqtt_connected online_state
   \<and> mqtt_log online_state = []
   \<and> mqtt_log (snd (publish_sensor_data first_call_fails_world
                      (Some 21) (Some 40) (Some 300) (Some 50) online_state)) =
       [Publish (state_topic ''temperature'') (Number 21) True]"
  by (simp add: publish_sensor_data_def safe_publish_def mqtt_invoke_def set_mqtt_def
      is_mqtt_connected_def online_state_def initial_state_def first_call_fails_world_def
      fair_world_def)

subsection \<open>Delivery of the status string\<close>

lemma device_status_keeps_session:
  assumes "device_status w s = Inr (status, s')"
  shows "is_mqtt_connected s' = is_mqtt_connected s"
    and "mqtt_log s' = mqtt_log s"
    and "calls s' = calls s \<or> calls s' = Suc (calls s)"
    and "\<not> wifi (connection_status s) \<or> \<not> mqtt (connection_status s) \<Longrightarrow> s' = s"
  using assms
  by (auto simp add: device_status_def bind_result_def is_mqtt_connected_def advance_def
      split: sum.splits if_splits)

lemma device_status_returns:
  assumes "working_sensors s = Inr healthy" and "total_sensors s = Inr known"
  shows "\<exists>status s1. device_status w s = Inr (status, s1)"
  by (simp add: device_status_chain [OF assms])

lemma publish_device_status_disconnected:
  assumes "working_sensors s = Inr healthy" and "total_sensors s = Inr known"
    and "\<not> is_mqtt_connected s"
  shows "\<exists>s'. publish_device_status w s = Inr (False, s') \<and> mqtt_log s' = mqtt_log s"
proof -
  obtain status s1 where ds: "device_status w s = Inr (status, s1)"
    using device_status_returns [OF assms(1,2)] by blast
  have "\<not> is_mqtt_connected s1" and "mqtt_log s1 = mqtt_log s"
    using device_status_keeps_session(1,2) [OF ds] assms(3) by simp_all
  then show ?thesis
    using ds by (simp add: publish_device_status_def bind_result_def safe_publish_disconnected)
qed

lemma status_mqtt_disconnected_flag:
  assumes "status_of w s = Inr ''MQTT Disconnected''"
  shows "\<not> mqtt (connection_status s)"
  using assms
  by (auto simp add: status_of_def device_status_def bind_result_def
      split: sum.splits if_splits)

lemma status_wifi_disconnected_flag:
  assumes "status_of w s = Inr ''WiFi Disconnected''"
  shows "\<not> wifi (connection_status s)"
  using assms
  by (auto simp add: status_of_def device_status_def bind_result_def
      split: sum.splits if_splits)

lemma publish_device_status_link_down:
  assumes "working_sensors s = Inr healthy" and "total_sensors s = Inr known"
    and "\<not> wifi (connection_status s)"
  shows "publish_device_status w s =
           Inr (safe_publish w status_topic (Text ''WiFi Disconnected'') False s)"
  using assms(3)
  by (simp add: publish_device_status_def device_status_chain [OF assms(1,2)] bind_result_def)

lemma safe_publish_result:
  "\<exists>s'. safe_publish w topic v retain s =
          (is_mqtt_connected s \<and> mqtt_returns w (calls s), s')"
  by (simp add: safe_publish_def mqtt_invoke_def)

text \<open>
  C10, as the script behaves. When the counts of \<^verbatim>\<open>publish_device_status\<close> can be taken
  (no key is missing): the function returns \<^verbatim>\<open>False\<close>, and makes no call on the client,
  whenever the session is considered down; every state whose status is
  "MQTT Disconnected" is such a state. A state whose status is "WiFi Disconnected" returns
  \<^verbatim>\<open>True\<close> exactly when the session is up and the publish on the client returns: the link
  flag plays no part in \<^verbatim>\<open>safe_publish\<close>.
\<close>

theorem status_delivery:
  assumes "working_sensors s = Inr healthy" and "total_sensors s = Inr known"
  shows "(\<not> is_mqtt_connected s \<longrightarrow>
            (\<exists>s'. publish_device_status w s = Inr (False, s') \<and> mqtt_log s' = mqtt_log s))
    \<and> (status_of w s = Inr ''MQTT Disconnected'' \<longrightarrow>
            (\<exists>s'. publish_device_status w s = Inr (False, s') \<and> mqtt_log s' = mqtt_log s))
    \<and> (status_of w s = Inr ''WiFi Disconnected'' \<longrightarrow>
            (\<exists>s'. publish_device_status w s =
                     Inr (is_mqtt_connected s \<and> mqtt_returns w (calls s), s')))"
proof (intro conjI impI)
  assume "\<not> is_mqtt_connected s"
  with assms show "\<exists>s'. publish_device_status w s = Inr (False, s') \<and> mqtt_log s' = mqtt_log s"
    by (rule publish_device_status_disconnected)
next
  assume "status_of w s = Inr ''MQTT Disconnected''"
  then have "\<not> mqtt (connection_status s)"
    by (rule status_mqtt_disconnected_flag)
  then have "\<not> is_mqtt_connected s"
    by (simp add: is_mqtt_connected_def)
  with assms show "\<exists>s'. publish_device_status w s = Inr (False, s') \<and> mqtt_log s' = mqtt_log s"
    by (rule publish_device_status_disconnected)
next
  assume "status_of w s = Inr ''WiFi Disconnected''"
  then have "\<not> wifi (connection_status s)"
    by (rule status_wifi_disconnected_flag)
  with assms have "publish_device_status w s =
      Inr (safe_publish w status_topic (Text ''WiFi Disconnected'') False s)"
    by (rule publish_device_status_link_down)
  moreover obtain s' where "safe_publish w status_topic (Text ''WiFi Disconnected'') False s =
      (is_mqtt_connected s \<and> mqtt_returns w (calls s), s')"
    using safe_publish_result by blast
  ultimately have "publish_device_status w s =
      Inr (is_mqtt_connected s \<and> mqtt_returns w (calls s), s')"
    by simp
  then show "\<exists>s'. publish_device_status w s =
      Inr (is_mqtt_connected s \<and> mqtt_returns w (calls s), s')" ..
qed

theorem status_delivery_witness:
  "(\<exists>s'. publish_device_status fair_world (set_mqtt False online_state) = Inr (False, s')
        \<and> mqtt_log s' = mqtt_log (set_mqtt False online_state))
   \<and> (\<exists>s'. publish_device_status fair_world (set_wifi False online_state) = Inr (True, s'))"
proof -
  have a: "working_sensors (set_mqtt False online_state) = Inr 3"
    "total_sensors (set_mqtt False online_state) = Inr 3"
    by (simp_all add: count_defs example_state_defs set_mqtt_def)
  have a_status: "status_of fair_world (set_mqtt False online_state) = Inr ''MQTT Disconnected''"
    by (simp add: status_of_def device_status_def count_defs example_state_defs set_mqtt_def)
  have b: "working_sensors (set_wifi False online_state) = Inr 3"
    "total_sensors (set_wifi False online_state) = Inr 3"
    by (simp_all add: count_defs example_state_defs set_wifi_def)
  have b_status: "status_of fair_world (set_wifi False online_state) = Inr ''WiFi Disconnected''"
    by (simp add: status_of_def device_status_def count_defs example_state_defs set_wifi_def)
  have b_up: "is_mqtt_connected (set_wifi False online_state)
      \<and> mqtt_returns fair_world (calls (set_wifi False online_state))"
    by (simp add: is_mqtt_connected_def set_wifi_def example_state_defs fair_world_def)
  from status_delivery [OF a, of fair_world] a_status
  have first: "\<exists>s'. publish_device_status fair_world (set_mqtt False online_state) = Inr (False, s')
      \<and> mqtt_log s' = mqtt_log (set_mqtt False online_state)"
    by (elim conjE) (erule (1) impE)
  from status_delivery [OF b, of fair_world] b_status
  have "\<exists>s'. publish_device_status fair_world (set_wifi False online_state) =
      Inr (is_mqtt_connected (set_wifi False online_state)
           \<and> mqtt_returns fair_world (calls (set_wifi False online_state)), s')"
    by (elim conjE) (erule (1) impE)
  then have second: "\<exists>s'. publish_device_status fair_world (set_wifi False online_state) = Inr (True, s')"
    using b_up by simp
  show ?thesis
    using first second by (rule conjI)
qed

text \<open>
  The claim as written fails for "WiFi Disconnected". In \<open>late_link_world\<close> the start-up
  code ends in a state with the link flag down and the session up; the status of that state
  is "WiFi Disconnected", and publishing it returns \<^verbatim>\<open>True\<close>.
\<close>

theorem status_delivery_counterexample:
  "\<not> isl (startup late_link_world)
   \<and> \<not> wifi (connection_status (projr (startup late_link_world)))
   \<and> status_of late_link_world (projr (startup late_link_world)) = Inr ''WiFi Disconnected''
   \<and> map_sum id fst (publish_device_status late_link_world (projr (startup late_link_world)))
       = Inr True"
  by code_simp

subsection \<open>What the connection code leaves alone\<close>

lemma wait_for_wifi_again:
  "\<not> isconnected w (calls s) \<and> attempt < 10 \<Longrightarrow>
   wait_for_wifi w attempt s = wait_for_wifi w (Suc attempt) (advance s)"
  by (subst wait_for_wifi.simps) simp

lemma wait_for_wifi_done:
  "\<not> (\<not> isconnected w (calls s) \<and> attempt < 10) \<Longrightarrow> wait_for_wifi w attempt s = advance s"
  by (subst wait_for_wifi.simps) auto

lemma sensor_side_basic [simp]:
  "sensor_side (advance s) = sensor_side s"
  "sensor_side (set_wifi b s) = sensor_side s"
  "sensor_side (set_mqtt b s) = sensor_side s"
  "sensor_side (snd (mqtt_invoke w c s)) = sensor_side s"
  "sensor_side (s\<lparr>wlan := x\<rparr>) = sensor_side s"
  "sensor_side (s\<lparr>mqtt_client := y\<rparr>) = sensor_side s"
  "sensor_side (s\<lparr>last_gc_time := t\<rparr>) = sensor_side s"
  "sensor_side (s\<lparr>last_connection_check := t\<rparr>) = sensor_side s"
  "sensor_side (s\<lparr>last_status_update := t\<rparr>) = sensor_side s"
  "sensor_side (s\<lparr>connection_status := cs\<rparr>) = sensor_side s"
  by (simp_all add: sensor_side_def advance_def set_wifi_def set_mqtt_def mqtt_invoke_def)

lemma sensor_side_wait_for_wifi [simp]:
  "sensor_side (wait_for_wifi w attempt s) = sensor_side s"
proof (induction w attempt s rule: wait_for_wifi.induct)
  case (1 w attempt s)
  show ?case
  proof (cases "\<not> isconnected w (calls s) \<and> attempt < 10")
    case True
    then show ?thesis
      using "1.IH" by (simp add: wait_for_wifi_again)
  next
    case False
    then show ?thesis
      by (simp add: wait_for_wifi_done)
  qed
qed

lemma sensor_side_connect_wifi [simp]:
  "sensor_side (snd (connect_wifi w s)) = sensor_side s"
  by (simp add: connect_wifi_def Let_def)

lemma sensor_side_connect_mqtt [simp]:
  "sensor_side (snd (connect_mqtt w s)) = sensor_side s"
  by (simp add: connect_mqtt_def Let_def mqtt_invoke_def set_mqtt_def sensor_side_def)

lemma sensor_side_publish_discovery_each [simp]:
  "sensor_side (publish_discovery_each w sensors s) = sensor_side s"
  by (induction w sensors s rule: publish_discovery_each.induct) simp_all

lemma sensor_side_publish_discovery_config [simp]:
  "sensor_side (publish_discovery_config w s) = sensor_side s"
  by (simp add: publish_discovery_config_def)

lemma sensor_side_safe_publish [simp]:
  "sensor_side (snd (safe_publish w topic v retain s)) = sensor_side s"
  by (simp add: safe_publish_def mqtt_invoke_def sensor_side_def set_mqtt_def)

lemma sensor_side_publish_each [simp]:
  "sensor_side (snd (publish_each w sensors_data n s)) = sensor_side s"
proof (induction w sensors_data n s rule: publish_each.induct)
  case (3 w sensor_type v sensors_data published_count s)
  obtain ok s1 where step: "safe_publish w (state_topic sensor_type) (Number v) True s = (ok, s1)"
    by (cases "safe_publish w (state_topic sensor_type) (Number v) True s")
  have "sensor_side s1 = sensor_side s"
    using sensor_side_safe_publish [of w "state_topic sensor_type" "Number v" True s] step by simp
  then show ?case
    using "3.IH" [of "(ok, s1)" ok s1] step by simp
qed simp_all

lemma sensor_side_publish_sensor_data [simp]:
  "sensor_side (snd (publish_sensor_data w temp hum lux moisture s)) = sensor_side s"
  by (simp add: publish_sensor_data_def)

lemma device_status_state:
  "device_status w s = Inr (status, s') \<Longrightarrow> s' = s \<or> s' = advance s"
  by (auto simp add: device_status_def bind_result_def split: sum.splits if_splits)

lemma sensor_side_device_status:
  "device_status w s = Inr (status, s') \<Longrightarrow> sensor_side s' = sensor_side s"
  by (drule device_status_state) auto

lemma sensor_side_publish_device_status:
  "publish_device_status w s = Inr (published, s') \<Longrightarrow> sensor_side s' = sensor_side s"
  by (auto simp add: publish_device_status_def bind_result_def split: sum.splits prod.splits
      dest!: sensor_side_device_status)
     (metis sensor_side_safe_publish snd_conv)

lemma sensor_side_keepalive [simp]:
  "sensor_side (keepalive w s) = sensor_side s"
  by (simp add: keepalive_def mqtt_invoke_def set_mqtt_def sensor_side_def)

lemma sensor_side_collect_garbage [simp]:
  "sensor_side (collect_garbage t s) = sensor_side s"
  by (simp add: collect_garbage_def)

lemma sensor_side_check_wifi [simp]:
  "sensor_side (check_wifi w s) = sensor_side s"
  by (simp add: check_wifi_def)

lemma sensor_side_check_mqtt:
  assumes "check_mqtt w s = Inr s'"
  shows "sensor_side s' = sensor_side s"
proof (cases "mqtt_client s = None")
  case True
  then show ?thesis
    using assms by (auto simp add: check_mqtt_def)
next
  case False
  let ?s1 = "snd (mqtt_invoke w Ping s)"
  show ?thesis
  proof (cases "fst (mqtt_invoke w Ping s)")
    case True
    then have "s' = set_mqtt True ?s1"
      using assms False by (simp add: check_mqtt_def split_beta)
    then show ?thesis by simp
  next
    case ping_failed: False
    let ?s2 = "snd (connect_mqtt w (set_mqtt False ?s1))"
    have side2: "sensor_side ?s2 = sensor_side s" by simp
    show ?thesis
    proof (cases "is_mqtt_connected ?s2")
      case True
      then have "bind_result (publish_device_status w (publish_discovery_config w ?s2))
          (\<lambda>(published, s). Inr s) = Inr s'"
        using assms False ping_failed by (simp add: check_mqtt_def split_beta Let_def)
      then obtain published where
        "publish_device_status w (publish_discovery_config w ?s2) = Inr (published, s')"
        by (auto simp add: bind_result_def split: sum.splits)
      then have "sensor_side s' = sensor_side (publish_discovery_config w ?s2)"
        by (rule sensor_side_publish_device_status)
      then show ?thesis
        using side2 by simp
    next
      case False
      then have "s' = ?s2"
        using assms \<open>mqtt_client s \<noteq> None\<close> ping_failed
        by (simp add: check_mqtt_def split_beta Let_def)
      then show ?thesis
        using side2 by simp
    qed
  qed
qed

lemma sensor_side_check_connections:
  assumes "check_connections w t s = Inr s'"
  shows "sensor_side s' = sensor_side s"
proof (cases "t - last_connection_check s \<ge> 60")
  case False
  then show ?thesis
    using assms by (simp add: check_connections_def)
next
  case True
  from assms True obtain s1 s2 where
    c1: "check_mqtt w (check_wifi w s) = Inr s1"
    and c2: "(if wifi (connection_status s) \<noteq> wifi (connection_status s1)
                 \<or> mqtt (connection_status s) \<noteq> mqtt (connection_status s1)
              then bind_result (publish_device_status w s1) (\<lambda>(published, s). Inr s)
              else Inr s1) = Inr s2"
    and c3: "s' = s2\<lparr>last_connection_check := t\<rparr>"
    by (auto simp add: check_connections_def Let_def bind_result_def split: sum.splits)
  have "sensor_side s1 = sensor_side s"
    using sensor_side_check_mqtt [OF c1] by simp
  moreover have "sensor_side s2 = sensor_side s1"
    using c2
    by (auto simp add: bind_result_def split: if_splits sum.splits prod.splits
        dest: sensor_side_publish_device_status)
  ultimately show ?thesis
    using c3 by simp
qed

lemma sensor_side_status_update:
  assumes "status_update cfg w t s = Inr s'"
  shows "sensor_side s' = sensor_side s"
  using assms
  by (auto simp add: status_update_def bind_result_def split: if_splits sum.splits prod.splits
      dest: sensor_side_publish_device_status)

subsection \<open>What reading the sensors changes\<close>

lemma without_counters_basic [simp]:
  "without_counters (advance s) = without_counters s"
  "without_counters (s\<lparr>failed_sensor_reads := f\<rparr>) = without_counters s"
  by (simp_all add: without_counters_def advance_def)

lemma without_counters_fields:
  assumes "without_counters s' = without_counters s"
  shows "sensor_status s' = sensor_status s"
    and "dht_sensor s' = dht_sensor s"
    and "light_sensor s' = light_sensor s"
    and "soil_moisture_adc s' = soil_moisture_adc s"
    and "mqtt_client s' = mqtt_client s"
    and "connection_status s' = connection_status s"
    and "temp_readings s' = temp_readings s"
    and "hum_readings s' = hum_readings s"
    and "lux_readings s' = lux_readings s"
    and "moisture_readings s' = moisture_readings s"
    and "last_publish_time s' = last_publish_time s"
    and "mqtt_log s' = mqtt_log s"
proof -
  have "sensor_status (without_counters s') = sensor_status (without_counters s)"
    "dht_sensor (without_counters s') = dht_sensor (without_counters s)"
    "light_sensor (without_counters s') = light_sensor (without_counters s)"
    "soil_moisture_adc (without_counters s') = soil_moisture_adc (without_counters s)"
    "mqtt_client (without_counters s') = mqtt_client (without_counters s)"
    "connection_status (without_counters s') = connection_status (without_counters s)"
    "temp_readings (without_counters s') = temp_readings (without_counters s)"
    "hum_readings (without_counters s') = hum_readings (without_counters s)"
    "lux_readings (without_counters s') = lux_readings (without_counters s)"
    "moisture_readings (without_counters s') = moisture_readings (without_counters s)"
    "last_publish_time (without_counters s') = last_publish_time (without_counters s)"
    "mqtt_log (without_counters s') = mqtt_log (without_counters s)"
    using assms by simp_all
  then show "sensor_status s' = sensor_status s"
    and "dht_sensor s' = dht_sensor s"
    and "light_sensor s' = light_sensor s"
    and "soil_moisture_adc s' = soil_moisture_adc s"
    and "mqtt_client s' = mqtt_client s"
    and "connection_status s' = connection_status s"
    and "temp_readings s' = temp_readings s"
    and "hum_readings s' = hum_readings s"
    and "lux_readings s' = lux_readings s"
    and "moisture_readings s' = moisture_readings s"
    and "last_publish_time s' = last_publish_time s"
    and "mqtt_log s' = mqtt_log s"
    by (simp_all add: without_counters_def)
qed

lemma without_counters_read [simp]:
  "without_counters (snd (read_dht w s)) = without_counters s"
  "without_counters (snd (read_light w s)) = without_counters s"
  "without_counters (snd (read_soil w s)) = without_counters s"
  by (simp_all add: read_dht_def read_light_def read_soil_def)

lemma failed_reads_read [simp]:
  "failed_sensor_reads (snd (read_dht w s)) = failed_sensor_reads s"
  "failed_sensor_reads (snd (read_light w s)) = failed_sensor_reads s"
  "failed_sensor_reads (snd (read_soil w s)) = failed_sensor_reads s"
  by (simp_all add: read_dht_def read_light_def read_soil_def advance_def)

lemma read_without_driver:
  "dht_sensor s = None \<Longrightarrow> read_dht w s = (Returns (Some (None, None)), s)"
  "light_sensor s = None \<Longrightarrow> read_light w s = (Returns None, s)"
  "soil_moisture_adc s = None \<Longrightarrow> read_soil w s = (Returns None, s)"
  by (simp_all add: read_dht_def read_light_def read_soil_def)

lemma safe_sensor_read_without_counters:
  "safe_sensor_read name r s = Inr (v, s') \<Longrightarrow> without_counters s' = without_counters s"
  by (auto simp add: safe_sensor_read_def bind_result_def lookup_def
      split: outcome.splits option.splits)

lemma safe_sensor_read_other:
  "safe_sensor_read name r s = Inr (v, s') \<Longrightarrow> other \<noteq> name \<Longrightarrow>
   failed_sensor_reads s' other = failed_sensor_reads s other"
  by (auto simp add: safe_sensor_read_def bind_result_def lookup_def
      split: outcome.splits option.splits)

lemma safe_sensor_read_returns_zero:
  "safe_sensor_read name (Returns x) s = Inr (v, s') \<Longrightarrow> failed_sensor_reads s' name = Some 0"
  by (auto simp add: safe_sensor_read_def)

lemma read_sensors_once_steps:
  assumes "read_sensors_once cfg w s = Inr ((temp, hum, lux, moisture), s')"
  obtains th s1 s2 moisture_raw where
    "safe_sensor_read ''dht11'' (fst (read_dht w s)) (snd (read_dht w s)) = Inr (th, s1)"
    and "safe_sensor_read ''bh1750'' (fst (read_light w s1)) (snd (read_light w s1)) = Inr (lux, s2)"
    and "safe_sensor_read ''soil_moisture'' (fst (read_soil w s2)) (snd (read_soil w s2))
          = Inr (moisture_raw, s')"
  using assms
  by (auto simp add: read_sensors_once_def bind_result_def split_beta Let_def split: sum.splits)

lemma read_sensors_once_without_counters:
  assumes "read_sensors_once cfg w s = Inr (readings, s')"
  shows "without_counters s' = without_counters s"
proof -
  obtain temp hum lux moisture where "readings = (temp, hum, lux, moisture)"
    by (cases readings) auto
  with assms obtain th s1 s2 moisture_raw where
    a: "safe_sensor_read ''dht11'' (fst (read_dht w s)) (snd (read_dht w s)) = Inr (th, s1)"
    and b: "safe_sensor_read ''bh1750'' (fst (read_light w s1)) (snd (read_light w s1)) = Inr (lux, s2)"
    and c: "safe_sensor_read ''soil_moisture'' (fst (read_soil w s2)) (snd (read_soil w s2))
          = Inr (moisture_raw, s')"
    by (auto elim: read_sensors_once_steps)
  show ?thesis
    using safe_sensor_read_without_counters [OF a] safe_sensor_read_without_counters [OF b]
      safe_sensor_read_without_counters [OF c]
    by simp
qed

lemma read_sensors_once_absent:
  assumes "read_sensors_once cfg w s = Inr (readings, s')"
  shows "absent_sensors_unfailed s'"
proof -
  obtain temp hum lux moisture where "readings = (temp, hum, lux, moisture)"
    by (cases readings) auto
  with assms obtain th s1 s2 moisture_raw where
    a: "safe_sensor_read ''dht11'' (fst (read_dht w s)) (snd (read_dht w s)) = Inr (th, s1)"
    and b: "safe_sensor_read ''bh1750'' (fst (read_light w s1)) (snd (read_light w s1)) = Inr (lux, s2)"
    and c: "safe_sensor_read ''soil_moisture'' (fst (read_soil w s2)) (snd (read_soil w s2))
          = Inr (moisture_raw, s')"
    by (auto elim: read_sensors_once_steps)
  have w1: "without_counters s1 = without_counters s"
    using safe_sensor_read_without_counters [OF a] by simp
  have w2: "without_counters s2 = without_counters s1"
    using safe_sensor_read_without_counters [OF b] by simp
  have w3: "without_counters s' = without_counters s2"
    using safe_sensor_read_without_counters [OF c] by simp
  note f1 = without_counters_fields [OF w1]
  note f2 = without_counters_fields [OF w2]
  note f3 = without_counters_fields [OF w3]
  have dht: "failed_sensor_reads s' ''dht11'' = Some 0" if "dht_sensor s' = None"
  proof -
    have "dht_sensor s = None"
      using that f1(2) f2(2) f3(2) by simp
    then have "failed_sensor_reads s1 ''dht11'' = Some 0"
      using a by (simp add: read_without_driver safe_sensor_read_returns_zero)
    then show ?thesis
      using safe_sensor_read_other [OF b, of "''dht11''"]
        safe_sensor_read_other [OF c, of "''dht11''"]
      by simp
  qed
  have light: "failed_sensor_reads s' ''bh1750'' = Some 0" if "light_sensor s' = None"
  proof -
    have "light_sensor s1 = None"
      using that f2(3) f3(3) by simp
    then have "failed_sensor_reads s2 ''bh1750'' = Some 0"
      using b by (simp add: read_without_driver safe_sensor_read_returns_zero)
    then show ?thesis
      using safe_sensor_read_other [OF c, of "''bh1750''"] by simp
  qed
  have soil: "failed_sensor_reads s' ''soil_moisture'' = Some 0" if "soil_moisture_adc s' = None"
  proof -
    have "soil_moisture_adc s2 = None"
      using that f3(4) by simp
    then show ?thesis
      using c by (simp add: read_without_driver safe_sensor_read_returns_zero)
  qed
  show ?thesis
    using dht light soil by (simp add: absent_sensors_unfailed_def)
qed

lemma sensor_read_steps:
  assumes "sensor_read cfg w t s = Inr s'"
  shows "(\<not> t - last_sensor_read_time s \<ge> SENSOR_READ_INTERVAL cfg \<and> s' = s)
    \<or> (\<exists>temp hum lux moisture s1.
          read_sensors_once cfg w s = Inr ((temp, hum, lux, moisture), s1)
          \<and> s' = s1\<lparr>temp_readings := append_reading temp (temp_readings s1),
                     hum_readings := append_reading hum (hum_readings s1),
                     lux_readings := append_reading lux (lux_readings s1),
                     moisture_readings := append_reading moisture (moisture_readings s1),
                     last_sensor_read_time := t\<rparr>)"
  using assms
  by (auto simp add: sensor_read_def bind_result_def split: if_splits sum.splits)

lemma sensor_read_keeps:
  assumes "sensor_read cfg w t s = Inr s'"
  shows "dht_sensor s' = dht_sensor s"
    and "light_sensor s' = light_sensor s"
    and "soil_moisture_adc s' = soil_moisture_adc s"
    and "sensor_status s' = sensor_status s"
    and "mqtt_client s' = mqtt_client s"
    and "connection_status s' = connection_status s"
    and "last_publish_time s' = last_publish_time s"
    and "mqtt_log s' = mqtt_log s"
proof -
  have "dht_sensor s' = dht_sensor s \<and> light_sensor s' = light_sensor s
    \<and> soil_moisture_adc s' = soil_moisture_adc s \<and> sensor_status s' = sensor_status s
    \<and> mqtt_client s' = mqtt_client s \<and> connection_status s' = connection_status s
    \<and> last_publish_time s' = last_publish_time s \<and> mqtt_log s' = mqtt_log s"
    using sensor_read_steps [OF assms]
  proof
    assume "\<not> t - last_sensor_read_time s \<ge> SENSOR_READ_INTERVAL cfg \<and> s' = s"
    then show ?thesis by simp
  next
    assume "\<exists>temp hum lux moisture s1.
          read_sensors_once cfg w s = Inr ((temp, hum, lux, moisture), s1)
          \<and> s' = s1\<lparr>temp_readings := append_reading temp (temp_readings s1),
                     hum_readings := append_reading hum (hum_readings s1),
                     lux_readings := append_reading lux (lux_readings s1),
                     moisture_readings := append_reading moisture (moisture_readings s1),
                     last_sensor_read_time := t\<rparr>"
    then obtain temp hum lux moisture s1 where
      r: "read_sensors_once cfg w s = Inr ((temp, hum, lux, moisture), s1)"
      and s': "s' = s1\<lparr>temp_readings := append_reading temp (temp_readings s1),
                     hum_readings := append_reading hum (hum_readings s1),
                     lux_readings := append_reading lux (lux_readings s1),
                     moisture_readings := append_reading moisture (moisture_readings s1),
                     last_sensor_read_time := t\<rparr>"
      by blast
    note f = without_counters_fields [OF read_sensors_once_without_counters [OF r]]
    show ?thesis
      using s' f(1-6) f(11,12) by simp
  qed
  then show "dht_sensor s' = dht_sensor s"
    and "light_sensor s' = light_sensor s"
    and "soil_moisture_adc s' = soil_moisture_adc s"
    and "sensor_status s' = sensor_status s"
    and "mqtt_client s' = mqtt_client s"
    and "connection_status s' = connection_status s"
    and "last_publish_time s' = last_publish_time s"
    and "mqtt_log s' = mqtt_log s"
    by simp_all
qed

lemma sensor_read_windows:
  assumes "sensor_read cfg w t s = Inr s'"
  shows "\<exists>temp hum lux moisture.
      temp_readings s' = append_reading temp (temp_readings s)
    \<and> hum_readings s' = append_reading hum (hum_readings s)
    \<and> lux_readings s' = append_reading lux (lux_readings s)
    \<and> moisture_readings s' = append_reading moisture (moisture_readings s)"
proof -
  from sensor_read_steps [OF assms] show ?thesis
  proof
    assume "\<not> t - last_sensor_read_time s \<ge> SENSOR_READ_INTERVAL cfg \<and> s' = s"
    then have "temp_readings s' = append_reading None (temp_readings s)
      \<and> hum_readings s' = append_reading None (hum_readings s)
      \<and> lux_readings s' = append_reading None (lux_readings s)
      \<and> moisture_readings s' = append_reading None (moisture_readings s)"
      by (simp add: append_reading_def)
    then show ?thesis by blast
  next
    assume "\<exists>temp hum lux moisture s1.
          read_sensors_once cfg w s = Inr ((temp, hum, lux, moisture), s1)
          \<and> s' = s1\<lparr>temp_readings := append_reading temp (temp_readings s1),
                     hum_readings := append_reading hum (hum_readings s1),
                     lux_readings := append_reading lux (lux_readings s1),
                     moisture_readings := append_reading moisture (moisture_readings s1),
                     last_sensor_read_time := t\<rparr>"
    then obtain temp hum lux moisture s1 where
      r: "read_sensors_once cfg w s = Inr ((temp, hum, lux, moisture), s1)"
      and s': "s' = s1\<lparr>temp_readings := append_reading temp (temp_readings s1),
                     hum_readings := append_reading hum (hum_readings s1),
                     lux_readings := append_reading lux (lux_readings s1),
                     moisture_readings := append_reading moisture (moisture_readings s1),
                     last_sensor_read_time := t\<rparr>"
      by blast
    note f = without_counters_fields [OF read_sensors_once_without_counters [OF r]]
    have "temp_readings s' = append_reading temp (temp_readings s)
      \<and> hum_readings s' = append_reading hum (hum_readings s)
      \<and> lux_readings s' = append_reading lux (lux_readings s)
      \<and> moisture_readings s' = append_reading moisture (moisture_readings s)"
      using s' f(7-10) by simp
    then show ?thesis by blast
  qed
qed

lemma sensor_read_absent:
  assumes "sensor_read cfg w t s = Inr s'" and "absent_sensors_unfailed s"
  shows "absent_sensors_unfailed s'"
  using sensor_read_steps [OF assms(1)] assms(2)
  by (auto dest!: read_sensors_once_absent simp add: absent_sensors_unfailed_def)

subsection \<open>The publish cycle and the whole iteration\<close>

lemma publish_cycle_clears:
  "temp_readings (publish_cycle w t s) = []"
  "hum_readings (publish_cycle w t s) = []"
  "lux_readings (publish_cycle w t s) = []"
  "moisture_readings (publish_cycle w t s) = []"
  "last_publish_time (publish_cycle w t s) = t"
  by (simp_all add: publish_cycle_def Let_def split_beta)

lemma publish_cycle_keeps:
  "dht_sensor (publish_cycle w t s) = dht_sensor s"
  "light_sensor (publish_cycle w t s) = light_sensor s"
  "soil_moisture_adc (publish_cycle w t s) = soil_moisture_adc s"
  "sensor_status (publish_cycle w t s) = sensor_status s"
  "failed_sensor_reads (publish_cycle w t s) = failed_sensor_reads s"
proof -
  let ?p = "publish_sensor_data w (average (float_bits w) (temp_readings s))
    (average (float_bits w) (hum_readings s)) (average (float_bits w) (lux_readings s))
    (average_int (float_bits w) (moisture_readings s)) s"
  have "sensor_side (snd ?p) = sensor_side s"
    by simp
  then have "dht_sensor (snd ?p) = dht_sensor s \<and> light_sensor (snd ?p) = light_sensor s
    \<and> soil_moisture_adc (snd ?p) = soil_moisture_adc s \<and> sensor_status (snd ?p) = sensor_status s
    \<and> failed_sensor_reads (snd ?p) = failed_sensor_reads s"
    by (simp add: sensor_side_def)
  then show "dht_sensor (publish_cycle w t s) = dht_sensor s"
    "light_sensor (publish_cycle w t s) = light_sensor s"
    "soil_moisture_adc (publish_cycle w t s) = soil_moisture_adc s"
    "sensor_status (publish_cycle w t s) = sensor_status s"
    "failed_sensor_reads (publish_cycle w t s) = failed_sensor_reads s"
    by (simp_all add: publish_cycle_def Let_def split_beta)
qed

lemma tick_steps:
  assumes "tick cfg w s = Inr s'"
  obtains s1 s2 s3 where
    "check_connections w (tick_time w s)
       (collect_garbage (tick_time w s) (keepalive w (advance s))) = Inr s1"
    and "status_update cfg w (tick_time w s) s1 = Inr s2"
    and "sensor_read cfg w (tick_time w s) s2 = Inr s3"
    and "s' = publish_averages cfg w (tick_time w s) s3"
  using assms
  by (auto simp add: tick_def Let_def bind_result_def split: sum.splits)

lemma tick_before_reading:
  assumes "check_connections w t (collect_garbage t (keepalive w (advance s))) = Inr s1"
    and "status_update cfg w t s1 = Inr s2"
  shows "sensor_side s2 = sensor_side s"
  using sensor_side_check_connections [OF assms(1)] sensor_side_status_update [OF assms(2)]
  by simp

subsection \<open>The reading lists are emptied by every publish cycle\<close>

lemma tick_publish_state:
  assumes "tick cfg w s = Inr s'"
  obtains s3 where "s' = publish_averages cfg w (tick_time w s) s3"
    and "last_publish_time s3 = last_publish_time s"
    and "\<exists>temp hum lux moisture.
           temp_readings s3 = append_reading temp (temp_readings s)
         \<and> hum_readings s3 = append_reading hum (hum_readings s)
         \<and> lux_readings s3 = append_reading lux (lux_readings s)
         \<and> moisture_readings s3 = append_reading moisture (moisture_readings s)"
proof -
  from assms obtain s1 s2 s3 where
    a: "check_connections w (tick_time w s)
       (collect_garbage (tick_time w s) (keepalive w (advance s))) = Inr s1"
    and b: "status_update cfg w (tick_time w s) s1 = Inr s2"
    and c: "sensor_read cfg w (tick_time w s) s2 = Inr s3"
    and d: "s' = publish_averages cfg w (tick_time w s) s3"
    by (rule tick_steps)
  have "sensor_side s2 = sensor_side s"
    using a b by (rule tick_before_reading)
  then have same: "temp_readings s2 = temp_readings s" "hum_readings s2 = hum_readings s"
    "lux_readings s2 = lux_readings s" "moisture_readings s2 = moisture_readings s"
    "last_publish_time s2 = last_publish_time s"
    by (simp_all add: sensor_side_def)
  have "last_publish_time s3 = last_publish_time s"
    using sensor_read_keeps(7) [OF c] same(5) by simp
  moreover have "\<exists>temp hum lux moisture.
           temp_readings s3 = append_reading temp (temp_readings s)
         \<and> hum_readings s3 = append_reading hum (hum_readings s)
         \<and> lux_readings s3 = append_reading lux (lux_readings s)
         \<and> moisture_readings s3 = append_reading moisture (moisture_readings s)"
    using sensor_read_windows [OF c] same(1-4) by simp
  ultimately show ?thesis
    using d that by blast
qed

text \<open>
  C4. The publish cycle leaves all four reading lists empty and sets \<^verbatim>\<open>last_publish_time\<close>
  to the time of the iteration, whatever the lists held and whatever the MQTT calls of the
  cycle did (the world is arbitrary). So an iteration of the loop in which the publish
  timer has elapsed ends with four empty lists. An iteration in which it has not elapsed
  leaves \<^verbatim>\<open>last_publish_time\<close> alone, runs less than \<^verbatim>\<open>PUBLISH_INTERVAL\<close> after it, and
  appends at most one reading to each list. Hence a list only ever holds readings taken
  since the last publish cycle, in iterations less than one publish interval after it.
\<close>

theorem windows_emptied_by_publish_cycle:
  "(temp_readings (publish_cycle w t s) = [] \<and> hum_readings (publish_cycle w t s) = []
      \<and> lux_readings (publish_cycle w t s) = [] \<and> moisture_readings (publish_cycle w t s) = []
      \<and> last_publish_time (publish_cycle w t s) = t)
   \<and> (tick cfg w s = Inr s' \<and> publish_due cfg (tick_time w s) s \<longrightarrow>
        temp_readings s' = [] \<and> hum_readings s' = [] \<and> lux_readings s' = []
        \<and> moisture_readings s' = [] \<and> last_publish_time s' = tick_time w s)
   \<and> (tick cfg w s = Inr s' \<and> \<not> publish_due cfg (tick_time w s) s \<longrightarrow>
        last_publish_time s' = last_publish_time s
        \<and> tick_time w s - last_publish_time s < PUBLISH_INTERVAL cfg
        \<and> (\<exists>temp hum lux moisture.
              temp_readings s' = append_reading temp (temp_readings s)
            \<and> hum_readings s' = append_reading hum (hum_readings s)
            \<and> lux_readings s' = append_reading lux (lux_readings s)
            \<and> moisture_readings s' = append_reading moisture (moisture_readings s)))"
proof (intro conjI impI)
  assume "tick cfg w s = Inr s' \<and> publish_due cfg (tick_time w s) s"
  then have run: "tick cfg w s = Inr s'" and due: "publish_due cfg (tick_time w s) s"
    by simp_all
  from run obtain s3 where s': "s' = publish_averages cfg w (tick_time w s) s3"
    and lp: "last_publish_time s3 = last_publish_time s"
    by (rule tick_publish_state)
  have "publish_due cfg (tick_time w s) s3"
    using due lp by (simp add: publish_due_def)
  then have "s' = publish_cycle w (tick_time w s) s3"
    using s' by (simp add: publish_averages_def)
  then show "temp_readings s' = []" "hum_readings s' = []" "lux_readings s' = []"
    "moisture_readings s' = []" "last_publish_time s' = tick_time w s"
    by (simp_all add: publish_cycle_clears)
next
  assume "tick cfg w s = Inr s' \<and> \<not> publish_due cfg (tick_time w s) s"
  then have run: "tick cfg w s = Inr s'" and early: "\<not> publish_due cfg (tick_time w s) s"
    by simp_all
  from run obtain s3 where s': "s' = publish_averages cfg w (tick_time w s) s3"
    and lp: "last_publish_time s3 = last_publish_time s"
    and grown: "\<exists>temp hum lux moisture.
           temp_readings s3 = append_reading temp (temp_readings s)
         \<and> hum_readings s3 = append_reading hum (hum_readings s)
         \<and> lux_readings s3 = append_reading lux (lux_readings s)
         \<and> moisture_readings s3 = append_reading moisture (moisture_readings s)"
    by (rule tick_publish_state)
  have "\<not> publish_due cfg (tick_time w s) s3"
    using early lp by (simp add: publish_due_def)
  then have same: "s' = s3"
    using s' by (simp add: publish_averages_def)
  show "last_publish_time s' = last_publish_time s"
    using same lp by simp
  show "tick_time w s - last_publish_time s < PUBLISH_INTERVAL cfg"
    using early by (simp add: publish_due_def)
  show "\<exists>temp hum lux moisture.
           temp_readings s' = append_reading temp (temp_readings s)
         \<and> hum_readings s' = append_reading hum (hum_readings s)
         \<and> lux_readings s' = append_reading lux (lux_readings s)
         \<and> moisture_readings s' = append_reading moisture (moisture_readings s)"
    using same grown by simp
qed (simp_all add: publish_cycle_clears)

theorem windows_emptied_by_publish_cycle_witness:
  "temp_readings (projr (tick config_example fair_world online_state)) = []
   \<and> hum_readings (projr (tick config_example fair_world online_state)) = []
   \<and> lux_readings (projr (tick config_example fair_world online_state)) = []
   \<and> moisture_readings (projr (tick config_example fair_world online_state)) = []
   \<and> last_publish_time (projr (tick config_example fair_world online_state)) = 1000
   \<and> last_publish_time (projr (tick config_example early_world online_state)) = 0
   \<and> tick_time early_world online_state - last_publish_time online_state
       < PUBLISH_INTERVAL config_example"
proof -
  have "\<not> isl (tick config_example fair_world online_state)"
    by code_simp
  then have late: "tick config_example fair_world online_state =
      Inr (projr (tick config_example fair_world online_state))"
    by simp
  have due: "publish_due config_example (tick_time fair_world online_state) online_state"
    by code_simp
  have "\<not> isl (tick config_example early_world online_state)"
    by code_simp
  then have early: "tick config_example early_world online_state =
      Inr (projr (tick config_example early_world online_state))"
    by simp
  have not_due: "\<not> publish_due config_example (tick_time early_world online_state) online_state"
    by code_simp
  have at: "tick_time fair_world online_state = 1000" "last_publish_time online_state = 0"
    by (simp_all add: tick_time_def fair_world_def online_state_def initial_state_def)
  show ?thesis
    using windows_emptied_by_publish_cycle
        [of fair_world 0 online_state config_example
            "projr (tick config_example fair_world online_state)"]
      windows_emptied_by_publish_cycle
        [of early_world 0 online_state config_example
            "projr (tick config_example early_world online_state)"]
      late due early not_due at
    by simp
qed

subsection \<open>Sensors without a driver\<close>

lemma absent_sensors_unfailed_cong:
  "sensor_side s' = sensor_side s \<Longrightarrow> absent_sensors_unfailed s' = absent_sensors_unfailed s"
  by (simp add: sensor_side_def absent_sensors_unfailed_def)

lemma startup_sensor_side:
  assumes "startup w = Inr s"
  shows "sensor_side s = sensor_side (initialize_sensors w initial_state)"
proof -
  let ?s0 = "initialize_sensors w initial_state"
  let ?s1 = "snd (connect_wifi w ?s0)"
  let ?s2 = "snd (connect_mqtt w ?s1)"
  have side2: "sensor_side ?s2 = sensor_side ?s0"
    by simp
  show ?thesis
  proof (cases "fst (connect_mqtt w ?s1)")
    case False
    then have "s = ?s2"
      using assms by (simp add: startup_def Let_def split_beta)
    then show ?thesis
      using side2 by simp
  next
    case True
    then have "bind_result (publish_device_status w (publish_discovery_config w ?s2))
        (\<lambda>(published, s). Inr s) = Inr s"
      using assms by (simp add: startup_def Let_def split_beta)
    then obtain published where
      "publish_device_status w (publish_discovery_config w ?s2) = Inr (published, s)"
      by (auto simp add: bind_result_def split: sum.splits)
    then have "sensor_side s = sensor_side (publish_discovery_config w ?s2)"
      by (rule sensor_side_publish_device_status)
    then show ?thesis
      using side2 by simp
  qed
qed

lemma initialize_sensors_side:
  "dht_sensor (initialize_sensors w initial_state) = (if dht11_init w then Some Obj else None)"
  "light_sensor (initialize_sensors w initial_state) = (if bh1750_init w then Some Obj else None)"
  "soil_moisture_adc (initialize_sensors w initial_state) = (if soil_init w then Some Obj else None)"
  "sensor_status (initialize_sensors w initial_state) ''dht11'' = Some (dht11_init w)"
  "sensor_status (initialize_sensors w initial_state) ''bh1750'' = Some (bh1750_init w)"
  "sensor_status (initialize_sensors w initial_state) ''soil_moisture'' = Some (soil_init w)"
  "failed_sensor_reads (initialize_sensors w initial_state) =
     [''dht11'' \<mapsto> 0, ''bh1750'' \<mapsto> 0, ''soil_moisture'' \<mapsto> 0]"
  by (simp_all add: initialize_sensors_def initial_state_def Let_def)

lemma tick_sensor_facts:
  assumes "tick cfg w s = Inr s'"
  shows "dht_sensor s' = dht_sensor s"
    and "light_sensor s' = light_sensor s"
    and "soil_moisture_adc s' = soil_moisture_adc s"
    and "sensor_status s' = sensor_status s"
    and "absent_sensors_unfailed s \<Longrightarrow> absent_sensors_unfailed s'"
proof -
  from assms obtain s1 s2 s3 where
    a: "check_connections w (tick_time w s)
       (collect_garbage (tick_time w s) (keepalive w (advance s))) = Inr s1"
    and b: "status_update cfg w (tick_time w s) s1 = Inr s2"
    and c: "sensor_read cfg w (tick_time w s) s2 = Inr s3"
    and d: "s' = publish_averages cfg w (tick_time w s) s3"
    by (rule tick_steps)
  have side: "sensor_side s2 = sensor_side s"
    using a b by (rule tick_before_reading)
  then have s2: "dht_sensor s2 = dht_sensor s" "light_sensor s2 = light_sensor s"
    "soil_moisture_adc s2 = soil_moisture_adc s" "sensor_status s2 = sensor_status s"
    by (simp_all add: sensor_side_def)
  note s3 = sensor_read_keeps(1-4) [OF c]
  have last: "dht_sensor s' = dht_sensor s3" "light_sensor s' = light_sensor s3"
    "soil_moisture_adc s' = soil_moisture_adc s3" "sensor_status s' = sensor_status s3"
    "failed_sensor_reads s' = failed_sensor_reads s3"
    using d by (simp_all add: publish_averages_def publish_cycle_keeps)
  show "dht_sensor s' = dht_sensor s" "light_sensor s' = light_sensor s"
    "soil_moisture_adc s' = soil_moisture_adc s" "sensor_status s' = sensor_status s"
    using s2 s3 last by simp_all
  show "absent_sensors_unfailed s'" if "absent_sensors_unfailed s"
  proof -
    have "absent_sensors_unfailed s2"
      using that absent_sensors_unfailed_cong [OF side] by simp
    then have "absent_sensors_unfailed s3"
      using c by (rule sensor_read_absent [rotated])
    then show ?thesis
      using last by (simp add: absent_sensors_unfailed_def)
  qed
qed

lemma run_sensor_facts:
  assumes "run cfg w n = Inr s"
  shows "dht_sensor s = (if dht11_init w then Some Obj else None)
    \<and> light_sensor s = (if bh1750_init w then Some Obj else None)
    \<and> soil_moisture_adc s = (if soil_init w then Some Obj else None)
    \<and> sensor_status s ''dht11'' = Some (dht11_init w)
    \<and> sensor_status s ''bh1750'' = Some (bh1750_init w)
    \<and> sensor_status s ''soil_moisture'' = Some (soil_init w)
    \<and> absent_sensors_unfailed s"
  using assms
proof (induction n arbitrary: s)
  case 0
  then have "startup w = Inr s" by simp
  then have "sensor_side s = sensor_side (initialize_sensors w initial_state)"
    by (rule startup_sensor_side)
  then have "dht_sensor s = dht_sensor (initialize_sensors w initial_state)"
    "light_sensor s = light_sensor (initialize_sensors w initial_state)"
    "soil_moisture_adc s = soil_moisture_adc (initialize_sensors w initial_state)"
    "sensor_status s = sensor_status (initialize_sensors w initial_state)"
    "failed_sensor_reads s = failed_sensor_reads (initialize_sensors w initial_state)"
    by (simp_all add: sensor_side_def)
  then show ?case
    by (simp add: initialize_sensors_side absent_sensors_unfailed_def)
next
  case (Suc n)
  then obtain s0 where before: "run cfg w n = Inr s0" and step: "tick cfg w s0 = Inr s"
    by (auto simp add: bind_result_def split: sum.splits)
  show ?case
    using Suc.IH [OF before] tick_sensor_facts [OF step] by simp
qed

lemma absent_counter_healthy:
  assumes "run cfg w n = Inr s" and "driver s = None" and "\<not> init w"
    and "absent_sensors_unfailed s \<Longrightarrow> driver s = None \<Longrightarrow> failed_sensor_reads s name = Some 0"
    and "sensor_status s name = Some (init w)"
  shows "failed_sensor_reads s name = Some 0 \<and> is_healthy s name = Inr True
    \<and> sensor_working s name = Inr False"
proof -
  have "absent_sensors_unfailed s"
    using run_sensor_facts [OF assms(1)] by simp
  then have zero: "failed_sensor_reads s name = Some 0"
    using assms(2,4) by simp
  then have "is_healthy s name = Inr True"
    by (simp add: is_healthy_counter)
  moreover have "sensor_working s name = Inr False"
    using assms(3,5) by (simp add: sensor_working_def lookup_def bind_result_def)
  ultimately show ?thesis
    using zero by simp
qed

text \<open>
  C9. When the driver variable of a sensor is \<^verbatim>\<open>None\<close>, its read function returns \<^verbatim>\<open>None\<close>
  (the pair of two \<^verbatim>\<open>None\<close> for the DHT11) without calling a driver and without raising, so
  \<^verbatim>\<open>safe_sensor_read\<close> takes the success branch and sets that sensor's counter to 0. The
  driver variables are assigned only by \<^verbatim>\<open>initialize_sensors\<close>; so in every state at the top
  of the loop, a sensor that failed to initialise has no driver, its counter is 0 and the
  counter test \<^verbatim>\<open>failed_sensor_reads[name] < 5\<close> holds. (Such a sensor is still not counted
  as working, through its \<^verbatim>\<open>sensor_status\<close> entry.)
\<close>

theorem absent_driver_counter_stays_zero:
  "(dht_sensor s = None \<longrightarrow>
      read_dht w s = (Returns (Some (None, None)), s)
      \<and> safe_sensor_read ''dht11'' (fst (read_dht w s)) (snd (read_dht w s)) =
          Inr (Some (None, None), s\<lparr>failed_sensor_reads := (failed_sensor_reads s)(''dht11'' \<mapsto> 0)\<rparr>))
   \<and> (light_sensor s = None \<longrightarrow>
      read_light w s = (Returns None, s)
      \<and> safe_sensor_read ''bh1750'' (fst (read_light w s)) (snd (read_light w s)) =
          Inr (None, s\<lparr>failed_sensor_reads := (failed_sensor_reads s)(''bh1750'' \<mapsto> 0)\<rparr>))
   \<and> (soil_moisture_adc s = None \<longrightarrow>
      read_soil w s = (Returns None, s)
      \<and> safe_sensor_read ''soil_moisture'' (fst (read_soil w s)) (snd (read_soil w s)) =
          Inr (None, s\<lparr>failed_sensor_reads := (failed_sensor_reads s)(''soil_moisture'' \<mapsto> 0)\<rparr>))
   \<and> (run cfg w n = Inr s' \<longrightarrow>
        (\<not> dht11_init w \<longrightarrow>
           dht_sensor s' = None \<and> failed_sensor_reads s' ''dht11'' = Some 0
           \<and> is_healthy s' ''dht11'' = Inr True \<and> sensor_working s' ''dht11'' = Inr False)
      \<and> (\<not> bh1750_init w \<longrightarrow>
           light_sensor s' = None \<and> failed_sensor_reads s' ''bh1750'' = Some 0
           \<and> is_healthy s' ''bh1750'' = Inr True \<and> sensor_working s' ''bh1750'' = Inr False)
      \<and> (\<not> soil_init w \<longrightarrow>
           soil_moisture_adc s' = None \<and> failed_sensor_reads s' ''soil_moisture'' = Some 0
           \<and> is_healthy s' ''soil_moisture'' = Inr True
           \<and> sensor_working s' ''soil_moisture'' = Inr False))"
proof (intro conjI impI)
  assume "dht_sensor s = None"
  then show "read_dht w s = (Returns (Some (None, None)), s)"
    and "safe_sensor_read ''dht11'' (fst (read_dht w s)) (snd (read_dht w s)) =
          Inr (Some (None, None), s\<lparr>failed_sensor_reads := (failed_sensor_reads s)(''dht11'' \<mapsto> 0)\<rparr>)"
    by (simp_all add: read_without_driver safe_sensor_read_success)
next
  assume "light_sensor s = None"
  then show "read_light w s = (Returns None, s)"
    and "safe_sensor_read ''bh1750'' (fst (read_light w s)) (snd (read_light w s)) =
          Inr (None, s\<lparr>failed_sensor_reads := (failed_sensor_reads s)(''bh1750'' \<mapsto> 0)\<rparr>)"
    by (simp_all add: read_without_driver safe_sensor_read_success)
next
  assume "soil_moisture_adc s = None"
  then show "read_soil w s = (Returns None, s)"
    and "safe_sensor_read ''soil_moisture'' (fst (read_soil w s)) (snd (read_soil w s)) =
          Inr (None, s\<lparr>failed_sensor_reads := (failed_sensor_reads s)(''soil_moisture'' \<mapsto> 0)\<rparr>)"
    by (simp_all add: read_without_driver safe_sensor_read_success)
next
  assume r: "run cfg w n = Inr s'" and off: "\<not> dht11_init w"
  note facts = run_sensor_facts [OF r]
  have none: "dht_sensor s' = None"
    using facts off by simp
  have "failed_sensor_reads s' ''dht11'' = Some 0 \<and> is_healthy s' ''dht11'' = Inr True
    \<and> sensor_working s' ''dht11'' = Inr False"
    using r none off
  proof (rule absent_counter_healthy)
    show "failed_sensor_reads s' ''dht11'' = Some 0"
      if "absent_sensors_unfailed s'" "dht_sensor s' = None"
      using that by (simp add: absent_sensors_unfailed_def)
    show "sensor_status s' ''dht11'' = Some (dht11_init w)"
      using facts by simp
  qed
  with none show "dht_sensor s' = None" "failed_sensor_reads s' ''dht11'' = Some 0"
    "is_healthy s' ''dht11'' = Inr True" "sensor_working s' ''dht11'' = Inr False"
    by simp_all
next
  assume r: "run cfg w n = Inr s'" and off: "\<not> bh1750_init w"
  note facts = run_sensor_facts [OF r]
  have none: "light_sensor s' = None"
    using facts off by simp
  have "failed_sensor_reads s' ''bh1750'' = Some 0 \<and> is_healthy s' ''bh1750'' = Inr True
    \<and> sensor_working s' ''bh1750'' = Inr False"
    using r none off
  proof (rule absent_counter_healthy)
    show "failed_sensor_reads s' ''bh1750'' = Some 0"
      if "absent_sensors_unfailed s'" "light_sensor s' = None"
      using that by (simp add: absent_sensors_unfailed_def)
    show "sensor_status s' ''bh1750'' = Some (bh1750_init w)"
      using facts by simp
  qed
  with none show "light_sensor s' = None" "failed_sensor_reads s' ''bh1750'' = Some 0"
    "is_healthy s' ''bh1750'' = Inr True" "sensor_working s' ''bh1750'' = Inr False"
    by simp_all
next
  assume r: "run cfg w n = Inr s'" and off: "\<not> soil_init w"
  note facts = run_sensor_facts [OF r]
  have none: "soil_moisture_adc s' = None"
    using facts off by simp
  have "failed_sensor_reads s' ''soil_moisture'' = Some 0
    \<and> is_healthy s' ''soil_moisture'' = Inr True
    \<and> sensor_working s' ''soil_moisture'' = Inr False"
    using r none off
  proof (rule absent_counter_healthy)
    show "failed_sensor_reads s' ''soil_moisture'' = Some 0"
      if "absent_sensors_unfailed s'" "soil_moisture_adc s' = None"
      using that by (simp add: absent_sensors_unfailed_def)
    show "sensor_status s' ''soil_moisture'' = Some (soil_init w)"
      using facts by simp
  qed
  with none show "soil_moisture_adc s' = None" "failed_sensor_reads s' ''soil_moisture'' = Some 0"
    "is_healthy s' ''soil_moisture'' = Inr True" "sensor_working s' ''soil_moisture'' = Inr False"
    by simp_all
qed

theorem absent_driver_counter_stays_zero_witness:
  "\<not> isl (run config_example no_dht_world 2)
   \<and> dht_sensor (projr (run config_example no_dht_world 2)) = None
   \<and> failed_sensor_reads (projr (run config_example no_dht_world 2)) ''dht11'' = Some 0
   \<and> is_healthy (projr (run config_example no_dht_world 2)) ''dht11'' = Inr True"
proof -
  have returns: "\<not> isl (run config_example no_dht_world 2)"
    by code_simp
  then have r: "run config_example no_dht_world 2 = Inr (projr (run config_example no_dht_world 2))"
    by simp
  have off: "\<not> dht11_init no_dht_world"
    by (simp add: no_dht_world_def)
  show ?thesis
    using absent_driver_counter_stays_zero
        [of initial_state no_dht_world config_example 2
            "projr (run config_example no_dht_world 2)"]
      r off returns
    by simp
qed

subsection \<open>The session flag and the client object\<close>

lemma session_side_basic [simp]:
  "session_side (advance s) = session_side s"
  "session_side (set_wifi b s) = session_side s"
  "session_side (snd (mqtt_invoke w c s)) = session_side s"
  "session_side (s\<lparr>wlan := x\<rparr>) = session_side s"
  "session_side (s\<lparr>last_gc_time := t\<rparr>) = session_side s"
  "session_side (s\<lparr>last_connection_check := t\<rparr>) = session_side s"
  "session_side (s\<lparr>last_status_update := t\<rparr>) = session_side s"
  by (simp_all add: session_side_def advance_def set_wifi_def mqtt_invoke_def)

lemma session_has_client_cong:
  "session_side s' = session_side s \<Longrightarrow> session_has_client s' = session_has_client s"
  by (simp add: session_side_def session_has_client_def)

lemma session_side_wait_for_wifi [simp]:
  "session_side (wait_for_wifi w attempt s) = session_side s"
proof (induction w attempt s rule: wait_for_wifi.induct)
  case (1 w attempt s)
  show ?case
  proof (cases "\<not> isconnected w (calls s) \<and> attempt < 10")
    case True
    then show ?thesis
      using "1.IH" by (simp add: wait_for_wifi_again)
  next
    case False
    then show ?thesis
      by (simp add: wait_for_wifi_done)
  qed
qed

lemma session_side_connect_wifi [simp]:
  "session_side (snd (connect_wifi w s)) = session_side s"
  by (simp add: connect_wifi_def Let_def)

lemma session_has_client_connect_mqtt [simp]:
  "session_has_client (snd (connect_mqtt w s))"
  by (simp add: connect_mqtt_def Let_def mqtt_invoke_def set_mqtt_def session_has_client_def)

lemma session_side_publish_discovery_each [simp]:
  "session_side (publish_discovery_each w sensors s) = session_side s"
  by (induction w sensors s rule: publish_discovery_each.induct) simp_all

lemma session_side_publish_discovery_config [simp]:
  "session_side (publish_discovery_config w s) = session_side s"
  by (simp add: publish_discovery_config_def)






lemma session_side_collect_garbage [simp]:
  "session_side (collect_garbage t s) = session_side s"
  by (simp add: collect_garbage_def)

lemma session_side_check_wifi [simp]:
  "session_side (check_wifi w s) = session_side s"
  by (simp add: check_wifi_def)

lemma session_has_client_update [simp]:
  "session_has_client (s\<lparr>last_connection_check := t\<rparr>) = session_has_client s"
  "session_has_client (s\<lparr>last_status_update := t\<rparr>) = session_has_client s"
  "session_has_client (advance s) = session_has_client s"
  "session_has_client (collect_garbage t s) = session_has_client s"
  "session_has_client (check_wifi w s) = session_has_client s"
  "session_has_client (publish_discovery_config w s) = session_has_client s"
  by (rule session_has_client_cong, simp)+









subsection \<open>The calls on the client\<close>

lemma mqtt_log_basic [simp]:
  "mqtt_log (advance s) = mqtt_log s"
  "mqtt_log (set_wifi b s) = mqtt_log s"
  "mqtt_log (set_mqtt b s) = mqtt_log s"
  "mqtt_log (snd (mqtt_invoke w c s)) = mqtt_log s @ [c]"
  by (simp_all add: advance_def set_wifi_def set_mqtt_def mqtt_invoke_def)

lemma mqtt_log_wait_for_wifi [simp]:
  "mqtt_log (wait_for_wifi w attempt s) = mqtt_log s"
proof (induction w attempt s rule: wait_for_wifi.induct)
  case (1 w attempt s)
  show ?case
  proof (cases "\<not> isconnected w (calls s) \<and> attempt < 10")
    case True
    then show ?thesis
      using "1.IH" by (simp add: wait_for_wifi_again)
  next
    case False
    then show ?thesis
      by (simp add: wait_for_wifi_done)
  qed
qed

lemma mqtt_log_connect_wifi [simp]:
  "mqtt_log (snd (connect_wifi w s)) = mqtt_log s"
  by (simp add: connect_wifi_def Let_def)

lemma initialize_sensors_session [simp]:
  "mqtt_log (initialize_sensors w s) = mqtt_log s"
  "mqtt_client (initialize_sensors w s) = mqtt_client s"
  by (simp_all add: initialize_sensors_def Let_def)

lemma connect_wifi_client [simp]:
  "mqtt_client (snd (connect_wifi w s)) = mqtt_client s"
  using session_side_connect_wifi [of w s] by (simp add: session_side_def)









lemma check_wifi_session [simp]:
  "mqtt_log (check_wifi w s) = mqtt_log s"
  "mqtt_client (check_wifi w s) = mqtt_client s"
proof -
  show "mqtt_log (check_wifi w s) = mqtt_log s"
    by (simp add: check_wifi_def)
  show "mqtt_client (check_wifi w s) = mqtt_client s"
    using session_side_check_wifi [of w s] by (simp add: session_side_def)
qed






end
